theory Spec2Isabelle
  imports Main "HOL-Library.Word"
begin

unbundle bit_operations_syntax

section \<open>The I2C bus and the host state\<close>

text \<open>
  A shallow embedding of \<^verbatim>\<open>ft5x06-tool.c\<close>.  Bytes are 8-bit words.  Every ioctl on the
  bus and every \<^verbatim>\<open>msleep\<close> is recorded, in order, in \<open>bus_log\<close>; the bytes handed to
  \<^verbatim>\<open>write(outfd, ...)\<close> are collected in \<open>outfile\<close>.

  The chip is a \<open>transport\<close>: given the events so far and the transaction now issued, it
  gives the return value of the ioctl (negative on error) and the contents of the read
  buffer after the call.  On a failed transfer the kernel leaves the buffer as it was;
  every buffer that the program inspects after a read has been zeroed before the call,
  so such a failure is a reply with a negative return value and zero bytes.

  The parameters \<^verbatim>\<open>fd\<close> and \<^verbatim>\<open>addr\<close> are handed unchanged to every ioctl; the transport
  stands for the device they designate.  The \<^verbatim>\<open>LOG\<close>, \<^verbatim>\<open>ERR\<close> and \<^verbatim>\<open>DBG\<close> messages are
  left out.
\<close>

type_synonym byte = "8 word"

datatype event =
    I2C_Write "byte list"
  | I2C_Read "byte list" nat
  | Msleep nat

record state =
  bus_log :: "event list"
  outfile :: "byte list"

type_synonym transport = "event list \<Rightarrow> event \<Rightarrow> int \<times> (nat \<Rightarrow> byte)"

definition EIO :: int where "EIO = 5"
definition ENODEV :: int where "ENODEV = 19"

definition FT_UPGRADE_LOOP :: nat where "FT_UPGRADE_LOOP = 30"
definition FT_FW_MAX_SIZE :: nat where "FT_FW_MAX_SIZE = 64 * 1024"
definition FT_FW_PKT_LEN :: nat where "FT_FW_PKT_LEN = 128"
definition FT_FW_PKT_READ_LEN :: nat where "FT_FW_PKT_READ_LEN = 256"
definition INT_MAX :: nat where "INT_MAX = 2 ^ 31 - 1"

definition FT5x06_ID :: int where "FT5x06_ID = 0x55"
definition FT5x16_ID :: int where "FT5x16_ID = 0x0a"
definition FT5x26_ID :: int where "FT5x26_ID = 0x54"

definition msleep :: "nat \<Rightarrow> state \<Rightarrow> state" where
  "msleep delay st = st\<lparr>bus_log := bus_log st @ [Msleep delay]\<rparr>"

text \<open>
  \<^verbatim>\<open>ft5x06_i2c_read\<close>: a write message of the \<open>wrlen\<close> bytes of \<open>wrbuf\<close> (none when
  \<open>wrlen = 0\<close>, here \<open>wrbuf = []\<close>) and a read message of \<open>rdlen\<close> bytes, in one ioctl.
  The result is the return value, the read buffer and the new state.
\<close>

definition ft5x06_i2c_read ::
  "transport \<Rightarrow> byte list \<Rightarrow> nat \<Rightarrow> state \<Rightarrow> int \<times> byte list \<times> state" where
  "ft5x06_i2c_read tr wrbuf rdlen st =
     (case tr (bus_log st) (I2C_Read wrbuf rdlen) of
        (ret, rd) \<Rightarrow>
          (ret, map rd [0..<rdlen], st\<lparr>bus_log := bus_log st @ [I2C_Read wrbuf rdlen]\<rparr>))"

definition ft5x06_i2c_write :: "transport \<Rightarrow> byte list \<Rightarrow> state \<Rightarrow> int \<times> state" where
  "ft5x06_i2c_write tr buf st =
     (fst (tr (bus_log st) (I2C_Write buf)), st\<lparr>bus_log := bus_log st @ [I2C_Write buf]\<rparr>)"

definition ft5x06_write_reg :: "transport \<Rightarrow> byte \<Rightarrow> byte \<Rightarrow> state \<Rightarrow> state" where
  "ft5x06_write_reg tr regnum val st = snd (ft5x06_i2c_write tr [regnum, val] st)"

section \<open>The table of chips\<close>

record ft5x06_fw_update_info =
  chip_id :: byte
  fts_name :: string
  tpd_max_points :: byte
  auto_clb :: byte
  delay_aa :: nat
  delay_55 :: nat
  upgrade_id_1 :: byte
  upgrade_id_2 :: byte
  delay_readid :: nat
  delay_erase_flash :: nat
  flash_offset :: nat

definition mk_info ::
  "byte \<Rightarrow> string \<Rightarrow> byte \<Rightarrow> byte \<Rightarrow> nat \<Rightarrow> nat \<Rightarrow> byte \<Rightarrow> byte \<Rightarrow> nat \<Rightarrow> nat \<Rightarrow> nat
     \<Rightarrow> ft5x06_fw_update_info" where
  "mk_info c n p a daa d55 i1 i2 drd der off =
     \<lparr>chip_id = c, fts_name = n, tpd_max_points = p, auto_clb = a, delay_aa = daa,
      delay_55 = d55, upgrade_id_1 = i1, upgrade_id_2 = i2, delay_readid = drd,
      delay_erase_flash = der, flash_offset = off\<rparr>"

definition ft5x06_fwu_info :: "ft5x06_fw_update_info list" where
  "ft5x06_fwu_info =
     [mk_info 0x55 ''ft5x06'' 5 1 50 30 0x79 0x03 10 2000 0x0000,
      mk_info 0x0a ''ft5x16'' 5 1 50 30 0x79 0x07 10 1500 0x0000,
      mk_info 0x54 ''ft5x26'' 5 0 4 250 0x54 0x2c 10 3000 0x1800]"

text \<open>The conversion of an \<^verbatim>\<open>int\<close> argument to the \<^verbatim>\<open>unsigned\<close> parameter.\<close>

definition to_unsigned :: "int \<Rightarrow> int" where
  "to_unsigned c = c mod 2 ^ 32"

definition ft5x06_get_info :: "int \<Rightarrow> ft5x06_fw_update_info option" where
  "ft5x06_get_info cid = find (\<lambda>e. to_unsigned cid = uint (chip_id e)) ft5x06_fwu_info"

definition ft5x06_get_name :: "int \<Rightarrow> string option" where
  "ft5x06_get_name cid = map_option fts_name (ft5x06_get_info cid)"

section \<open>Low-level operations\<close>

text \<open>
  \<^verbatim>\<open>ft5x06_reset_ctpm\<close> and \<^verbatim>\<open>ft5x06_read_id\<close> dereference the result of
  \<^verbatim>\<open>ft5x06_get_info\<close> without a check: for a chip id outside the table the program
  crashes, which is the result \<open>None\<close>.
\<close>

definition ft5x26_hid_to_i2c :: "transport \<Rightarrow> state \<Rightarrow> state" where
  "ft5x26_hid_to_i2c tr st =
     (case ft5x06_i2c_write tr [0xeb, 0xaa, 0x09] st of
        (r, st1) \<Rightarrow>
          (case ft5x06_i2c_read tr [] 3 st1 of
             (r', packet_buf, st2) \<Rightarrow> msleep 10 st2))"

definition ft5x06_read_id :: "transport \<Rightarrow> int \<Rightarrow> state \<Rightarrow> (int \<times> state) option" where
  "ft5x06_read_id tr cid st =
     (case ft5x06_get_info cid of
        None \<Rightarrow> None
      | Some info \<Rightarrow>
          (case ft5x06_i2c_read tr [0x90, 0x00, 0x00, 0x00] 2 (msleep (delay_readid info) st) of
             (r, reg_val, st1) \<Rightarrow>
               if reg_val ! 0 \<noteq> upgrade_id_1 info \<or> reg_val ! 1 \<noteq> upgrade_id_2 info
               then Some (- 1, st1)
               else Some (0, st1)))"

definition ft5x06_reset_ctpm :: "transport \<Rightarrow> int \<Rightarrow> state \<Rightarrow> state option" where
  "ft5x06_reset_ctpm tr cid st =
     (case ft5x06_get_info cid of
        None \<Rightarrow> None
      | Some info \<Rightarrow>
          Some (msleep (delay_55 info)
                 (ft5x06_write_reg tr 0xfc 0x55
                   (msleep (delay_aa info)
                     (ft5x06_write_reg tr 0xfc 0xAA st)))))"

definition ft5x06_reset_fw :: "transport \<Rightarrow> state \<Rightarrow> state" where
  "ft5x06_reset_fw tr st = msleep 100 (snd (ft5x06_i2c_write tr [0x07] st))"

section \<open>Entering the bootloader\<close>

text \<open>
  The \<^verbatim>\<open>for\<close> loop of \<^verbatim>\<open>ft5x06_init_upgrade\<close>, from counter \<open>i\<close>; the result is the
  value of \<open>i\<close> when the loop is left.
\<close>

function ft5x06_init_upgrade_loop ::
  "transport \<Rightarrow> int \<Rightarrow> nat \<Rightarrow> state \<Rightarrow> (nat \<times> state) option" where
  "ft5x06_init_upgrade_loop tr cid i st =
     (if i < FT_UPGRADE_LOOP then
        (case ft5x06_reset_ctpm tr cid st of
           None \<Rightarrow> None
         | Some st1 \<Rightarrow>
             (case ft5x06_i2c_write tr [0x55, 0xAA]
                     (if cid = FT5x26_ID then ft5x26_hid_to_i2c tr st1 else st1) of
                (ret, st2) \<Rightarrow>
                  if ret < 0 then ft5x06_init_upgrade_loop tr cid (i + 1) st2
                  else
                    (case ft5x06_read_id tr cid st2 of
                       None \<Rightarrow> None
                     | Some (r, st3) \<Rightarrow>
                         if r = 0 then Some (i, st3)
                         else ft5x06_init_upgrade_loop tr cid (i + 1) st3)))
      else Some (i, st))"
  by pat_completeness auto
termination
  by (relation "measure (\<lambda>(tr, cid, i, st). FT_UPGRADE_LOOP - i)") auto

declare ft5x06_init_upgrade_loop.simps [simp del]

definition ft5x06_init_upgrade :: "transport \<Rightarrow> int \<Rightarrow> state \<Rightarrow> (int \<times> state) option" where
  "ft5x06_init_upgrade tr cid st =
     (case ft5x06_init_upgrade_loop tr cid 0 st of
        None \<Rightarrow> None
      | Some (i, st') \<Rightarrow> if i \<ge> FT_UPGRADE_LOOP then Some (- EIO, st') else Some (0, st'))"

section \<open>Sending and receiving packets\<close>

text \<open>
  The status loop at the end of \<^verbatim>\<open>ft5x06_fw_send_packet\<close> (the \<^verbatim>\<open>#else\<close> branch, the one
  that is compiled), from counter \<open>i\<close>.
\<close>

function ft5x06_flash_status_loop :: "transport \<Rightarrow> nat \<Rightarrow> nat \<Rightarrow> state \<Rightarrow> state" where
  "ft5x06_flash_status_loop tr offset i st =
     (if i < 5 then
        (case ft5x06_i2c_read tr [0x6a] 2 (msleep 5 st) of
           (r, reg_val, st1) \<Rightarrow>
             if offset div FT_FW_PKT_LEN + 0x1000
                  = (push_bit 8 (unat (reg_val ! 0)) OR unat (reg_val ! 1))
             then st1
             else ft5x06_flash_status_loop tr offset (i + 1) st1)
      else st)"
  by pat_completeness auto
termination
  by (relation "measure (\<lambda>(tr, offset, i, st). 5 - i)") auto

declare ft5x06_flash_status_loop.simps [simp del]

text \<open>
  \<^verbatim>\<open>ft5x06_fw_send_packet\<close>: the result is the new value of \<^verbatim>\<open>*ecc\<close> and the new state.
  Its callers pass \<open>length \<le> 128\<close>, the room of \<^verbatim>\<open>packet_buf\<close>, and offsets with
  \<open>offset + length\<close> inside the mapped file.
\<close>

definition ft5x06_fw_send_packet ::
  "transport \<Rightarrow> byte \<Rightarrow> nat \<Rightarrow> nat \<Rightarrow> byte list \<Rightarrow> byte \<Rightarrow> state \<Rightarrow> byte \<times> state" where
  "ft5x06_fw_send_packet tr command offset len data ecc st =
     (let payload = map (\<lambda>i. data ! (offset + i)) [0..<len];
          packet_buf = [command, 0x00, of_nat (drop_bit 8 offset), of_nat offset,
                        of_nat (drop_bit 8 len), of_nat len] @ payload
      in (fold (\<lambda>b e. e XOR b) payload ecc,
          ft5x06_flash_status_loop tr offset 0 (snd (ft5x06_i2c_write tr packet_buf st))))"

definition ft5x06_fw_receive_packet ::
  "transport \<Rightarrow> byte \<Rightarrow> nat \<Rightarrow> nat \<Rightarrow> state \<Rightarrow> int \<times> byte list \<times> state" where
  "ft5x06_fw_receive_packet tr command offset len st =
     ft5x06_i2c_read tr [command, 0x00, of_nat (drop_bit 8 offset), of_nat offset] len st"

section \<open>Reading the firmware\<close>

text \<open>
  The loop of \<^verbatim>\<open>ft5x06_fw_read\<close> from counter \<open>i\<close>, with the array \<^verbatim>\<open>data\<close> of 256 bytes.
  The first component of the result is \<open>Some ret\<close> when the loop is left by
  \<^verbatim>\<open>return ret\<close>.
\<close>

function ft5x06_fw_read_loop ::
  "transport \<Rightarrow> nat \<Rightarrow> byte list \<Rightarrow> state \<Rightarrow> int option \<times> state" where
  "ft5x06_fw_read_loop tr i data st =
     (if i < FT_FW_MAX_SIZE then
        (case ft5x06_fw_receive_packet tr 0x03 i
                (if FT_FW_MAX_SIZE - i < FT_FW_PKT_READ_LEN then FT_FW_MAX_SIZE - i
                 else FT_FW_PKT_READ_LEN)
                (msleep 10 st) of
           (ret, rd, st1) \<Rightarrow>
             if ret < 0 then (Some ret, st1)
             else
               (let data' = rd @ drop (length rd) data
                in ft5x06_fw_read_loop tr (i + FT_FW_PKT_READ_LEN) data'
                     (st1\<lparr>outfile := outfile st1 @ take FT_FW_PKT_READ_LEN data'\<rparr>)))
      else (None, st))"
  by pat_completeness auto
termination
  by (relation "measure (\<lambda>(tr, i, data, st). FT_FW_MAX_SIZE - i)")
     (auto simp: FT_FW_MAX_SIZE_def FT_FW_PKT_READ_LEN_def)

declare ft5x06_fw_read_loop.simps [simp del]

text \<open>
  The array \<^verbatim>\<open>data\<close> is not initialised; every packet fills all of it before it is
  written out, so its first contents (here zeros) never reach the file.
\<close>

definition ft5x06_fw_read :: "transport \<Rightarrow> int \<Rightarrow> state \<Rightarrow> (int \<times> state) option" where
  "ft5x06_fw_read tr cid st =
     (case ft5x06_init_upgrade tr cid st of
        None \<Rightarrow> None
      | Some (ret, st1) \<Rightarrow>
          if ret < 0 then Some (ret, st1)
          else
            (case ft5x06_fw_read_loop tr 0 (replicate FT_FW_PKT_READ_LEN 0) st1 of
               (Some r, st2) \<Rightarrow> Some (r, st2)
             | (None, st2) \<Rightarrow>
                 Some (0, msleep 100 (snd (ft5x06_i2c_write tr [0x07] st2)))))"

section \<open>Writing the firmware\<close>

text \<open>
  The programming loop of \<^verbatim>\<open>ft5x06_fw_upgrade\<close>.  The counter \<^verbatim>\<open>i\<close> is an \<^verbatim>\<open>int\<close>: when
  \<^verbatim>\<open>i += FT_FW_PKT_LEN\<close> would pass \<^verbatim>\<open>INT_MAX\<close> the behaviour is undefined, the result
  \<open>None\<close>.  \<open>data_len\<close> is the \<^verbatim>\<open>uint32_t\<close> parameter.
\<close>

function ft5x06_fw_upgrade_loop ::
  "transport \<Rightarrow> byte list \<Rightarrow> nat \<Rightarrow> nat \<Rightarrow> byte \<Rightarrow> state \<Rightarrow> (byte \<times> state) option" where
  "ft5x06_fw_upgrade_loop tr data data_len i ecc st =
     (if i < data_len then
        (case ft5x06_fw_send_packet tr 0xbf i
                (if data_len - i < FT_FW_PKT_LEN then data_len - i else FT_FW_PKT_LEN)
                data ecc st of
           (ecc', st1) \<Rightarrow>
             if i + FT_FW_PKT_LEN > INT_MAX then None
             else ft5x06_fw_upgrade_loop tr data data_len (i + FT_FW_PKT_LEN) ecc' st1)
      else Some (ecc, st))"
  by pat_completeness auto
termination
  by (relation "measure (\<lambda>(tr, data, data_len, i, ecc, st). data_len - i)")
     (auto simp: FT_FW_PKT_LEN_def)

declare ft5x06_fw_upgrade_loop.simps [simp del]

definition ft5x06_fw_upgrade ::
  "transport \<Rightarrow> int \<Rightarrow> byte list \<Rightarrow> nat \<Rightarrow> state \<Rightarrow> (int \<times> state) option" where
  "ft5x06_fw_upgrade tr cid data data_len st =
     (case ft5x06_get_info cid of
        None \<Rightarrow> Some (- ENODEV, st)
      | Some info \<Rightarrow>
          (case ft5x06_init_upgrade tr cid st of
             None \<Rightarrow> None
           | Some (ret, st1) \<Rightarrow>
               if ret < 0 then Some (ret, st1)
               else
                 (let st2 = snd (ft5x06_i2c_write tr [0x61] st1);
                      st3 = (if cid \<noteq> FT5x26_ID then snd (ft5x06_i2c_write tr [0x63] st2)
                             else st2);
                      st4 = msleep (delay_erase_flash info) st3;
                      st5 = snd (ft5x06_i2c_write tr
                                   [0xB0, of_nat (drop_bit 16 data_len AND 0xFF),
                                    of_nat (drop_bit 8 data_len AND 0xFF),
                                    of_nat (data_len AND 0xFF)] st4)
                  in (case ft5x06_fw_upgrade_loop tr data data_len 0 0 st5 of
                        None \<Rightarrow> None
                      | Some (ecc, st6) \<Rightarrow>
                          (case ft5x06_i2c_read tr [0xcc] 1 (msleep 50 st6) of
                             (r, reg_val, st7) \<Rightarrow>
                               if reg_val ! 0 \<noteq> ecc then Some (- EIO, st7)
                               else Some (0, ft5x06_reset_fw tr st7))))))"

section \<open>The command line\<close>

text \<open>
  What \<^verbatim>\<open>main\<close> needs from the host: \<^verbatim>\<open>strtol\<close>, the results of opening the bus device
  (by bus number) and of setting the slave address, the chip on the bus, the results of
  opening the output and the input file, the contents of the input file, and whether
  \<^verbatim>\<open>mmap\<close> of it fails.
\<close>

record host =
  strtol :: "string \<Rightarrow> nat \<Rightarrow> int"
  open_dev :: "int \<Rightarrow> int"
  set_slave_addr :: "int \<Rightarrow> int"
  chip :: transport
  open_output :: "string \<Rightarrow> int"
  open_input :: "string \<Rightarrow> int"
  input_file :: "string \<Rightarrow> byte list"
  mmap_fails :: "string \<Rightarrow> bool"

record opts =
  opt_addr :: int
  opt_bus :: int
  opt_chip_id :: int
  opt_input :: "string option"
  opt_output :: "string option"

definition init_opts :: opts where
  "init_opts = \<lparr>opt_addr = 0x38, opt_bus = 2, opt_chip_id = - 1,
                 opt_input = None, opt_output = None\<rparr>"

text \<open>The conversion of the \<^verbatim>\<open>long\<close> result of \<^verbatim>\<open>strtol\<close> to \<^verbatim>\<open>int\<close>.\<close>

definition to_int :: "int \<Rightarrow> int" where
  "to_int v = sint (word_of_int v :: 32 word)"

datatype parsed = Parsed opts | Bad_Flag | Null_Arg

text \<open>
  The loop over \<^verbatim>\<open>argv\<close>, with \<^verbatim>\<open>argc = length argv\<close>.  \<^verbatim>\<open>argv[++arg_count]\<close> after the
  last argument is the null pointer \<^verbatim>\<open>argv[argc]\<close>: \<^verbatim>\<open>strtol\<close> of it crashes
  (\<open>Null_Arg\<close>), and as a file name it is the same as no file name.
\<close>

function parse_args :: "host \<Rightarrow> string list \<Rightarrow> nat \<Rightarrow> opts \<Rightarrow> parsed" where
  "parse_args h argv arg_count opt =
     (if arg_count < length argv then
        (let nxt = (if arg_count + 1 < length argv then Some (argv ! (arg_count + 1))
                    else None)
         in if argv ! arg_count = ''-a'' \<or> argv ! arg_count = ''--address'' then
              (case nxt of
                 None \<Rightarrow> Null_Arg
               | Some v \<Rightarrow> parse_args h argv (arg_count + 2)
                             (opt\<lparr>opt_addr := to_int (strtol h v 16)\<rparr>))
            else if argv ! arg_count = ''-b'' \<or> argv ! arg_count = ''--bus'' then
              (case nxt of
                 None \<Rightarrow> Null_Arg
               | Some v \<Rightarrow> parse_args h argv (arg_count + 2)
                             (opt\<lparr>opt_bus := to_int (strtol h v 10)\<rparr>))
            else if argv ! arg_count = ''-c'' \<or> argv ! arg_count = ''--chipid'' then
              (case nxt of
                 None \<Rightarrow> Null_Arg
               | Some v \<Rightarrow> parse_args h argv (arg_count + 2)
                             (opt\<lparr>opt_chip_id := to_int (strtol h v 16)\<rparr>))
            else if argv ! arg_count = ''-i'' \<or> argv ! arg_count = ''--input'' then
              parse_args h argv (arg_count + 2) (opt\<lparr>opt_input := nxt\<rparr>)
            else if argv ! arg_count = ''-o'' \<or> argv ! arg_count = ''--ouput'' then
              parse_args h argv (arg_count + 2) (opt\<lparr>opt_output := nxt\<rparr>)
            else Bad_Flag)
      else Parsed opt)"
  by pat_completeness auto
termination
  by (relation "measure (\<lambda>(h, argv, arg_count, opt). length argv - arg_count)") auto

text \<open>
  How a run of \<^verbatim>\<open>main\<close> ends: \<^verbatim>\<open>show_help\<close> and \<^verbatim>\<open>exit(1)\<close>; a \<^verbatim>\<open>return\<close> with a value,
  in a final state; or undefined behaviour (a null pointer handed to \<^verbatim>\<open>strtol\<close>, a bus
  number too long for \<^verbatim>\<open>dev[16]\<close>, or the undefined behaviour of an engine).
\<close>

datatype outcome = Usage_Exit | Return int state | Undefined

definition exit_status :: "outcome \<Rightarrow> int option" where
  "exit_status out =
     (case out of Usage_Exit \<Rightarrow> Some 1 | Return v st \<Rightarrow> Some (v mod 256) | Undefined \<Rightarrow> None)"

text \<open>The state in which \<^verbatim>\<open>main\<close> returns: the log of the bus and the output file.\<close>

definition outcome_state :: "outcome \<Rightarrow> state option" where
  "outcome_state out = (case out of Return v st \<Rightarrow> Some st | _ \<Rightarrow> None)"

text \<open>The part of \<^verbatim>\<open>main\<close> from the comment \<^verbatim>\<open>Then flash a new firmware if available\<close>.\<close>

definition main_flash :: "host \<Rightarrow> opts \<Rightarrow> int \<Rightarrow> state \<Rightarrow> outcome" where
  "main_flash h opt cid st =
     (case opt_input opt of
        None \<Rightarrow> Return 0 st
      | Some input \<Rightarrow>
          if open_input h input < 0 then Return 0 st
          else if mmap_fails h input then Return 0 st
          else
            (case ft5x06_fw_upgrade (chip h) cid (input_file h input)
                    (length (input_file h input) mod 2 ^ 32) st of
               None \<Rightarrow> Undefined
             | Some (ret, st') \<Rightarrow> Return 0 st'))"

text \<open>The part from the comment \<^verbatim>\<open>First read the firmware if asked for\<close>.\<close>

definition main_dump :: "host \<Rightarrow> opts \<Rightarrow> int \<Rightarrow> state \<Rightarrow> outcome" where
  "main_dump h opt cid st =
     (case opt_output opt of
        None \<Rightarrow> main_flash h opt cid st
      | Some output \<Rightarrow>
          if open_output h output < 0 then Return 0 st
          else
            (case ft5x06_fw_read (chip h) cid st of
               None \<Rightarrow> Undefined
             | Some (ret, st') \<Rightarrow> main_flash h opt cid st'))"

text \<open>The part from the check of the chip id, with the chip id known.\<close>

definition main_version :: "host \<Rightarrow> opts \<Rightarrow> int \<Rightarrow> state \<Rightarrow> outcome" where
  "main_version h opt cid st =
     (if ft5x06_get_name cid = None then Return 0 st
      else
        (case ft5x06_i2c_read (chip h) [0xa6] 1 st of
           (ret, rbuf, st1) \<Rightarrow>
             if ret < 0 then Return 0 st1
             else if opt_input opt = None \<and> opt_output opt = None then Return 0 st1
             else main_dump h opt cid st1))"

text \<open>The part from the comment \<^verbatim>\<open>If chip ID isn't forced, detect it\<close>.\<close>

definition main_identify :: "host \<Rightarrow> opts \<Rightarrow> state \<Rightarrow> outcome" where
  "main_identify h opt st =
     (if opt_chip_id opt < 0 then
        (case ft5x06_i2c_read (chip h) [0xa3] 1 st of
           (ret, rbuf, st1) \<Rightarrow>
             if ret < 0 then Return 0 st1
             else main_version h opt (uint (rbuf ! 0)) st1)
      else main_version h opt (opt_chip_id opt) st)"

definition main :: "host \<Rightarrow> string list \<Rightarrow> outcome" where
  "main h argv =
     (case parse_args h argv 1 init_opts of
        Bad_Flag \<Rightarrow> Usage_Exit
      | Null_Arg \<Rightarrow> Undefined
      | Parsed opt \<Rightarrow>
          if opt_bus opt < - 99999 \<or> 999999 < opt_bus opt then Undefined
          else if open_dev h (opt_bus opt) < 0
            then Return (open_dev h (opt_bus opt)) \<lparr>bus_log = [], outfile = []\<rparr>
          else if set_slave_addr h (opt_addr opt) \<noteq> 0
            then Return (- 1) \<lparr>bus_log = [], outfile = []\<rparr>
          else main_identify h opt \<lparr>bus_log = [], outfile = []\<rparr>)"

section \<open>Chips and hosts for the examples\<close>

text \<open>
  A chip that accepts every transaction, answers the read of the bootloader id with
  \<open>i1, i2\<close>, the read of the ECC register with \<open>e\<close>, and every other read with zeros.
\<close>

definition fake_chip :: "byte \<Rightarrow> byte \<Rightarrow> byte \<Rightarrow> transport" where
  "fake_chip i1 i2 e h ev =
     (case ev of
        I2C_Read w n \<Rightarrow>
          if w = [0x90, 0x00, 0x00, 0x00] then (2, \<lambda>k. if k = 0 then i1 else i2)
          else if w = [0xcc] then (2, \<lambda>k. e)
          else (2, \<lambda>k. 0)
      | _ \<Rightarrow> (1, \<lambda>k. 0))"


text \<open>
  A chip whose flash cannot be read: it is \<open>fake_chip i1 i2 e\<close>, but every read that
  follows the command \<open>0x03\<close>, the read of a packet of the firmware, fails with \<open>-1\<close>.
\<close>

definition no_dump_chip :: "byte \<Rightarrow> byte \<Rightarrow> byte \<Rightarrow> transport" where
  "no_dump_chip i1 i2 e h ev =
     (case ev of
        I2C_Read w n \<Rightarrow> if take 1 w = [0x03] then (- 1, \<lambda>k. 0) else fake_chip i1 i2 e h ev
      | _ \<Rightarrow> fake_chip i1 i2 e h ev)"

definition fake_host :: "transport \<Rightarrow> byte list \<Rightarrow> host" where
  "fake_host tr img =
     \<lparr>strtol = (\<lambda>s base. if s = ''99'' then 0x99 else if s = ''55'' then 0x55 else 0),
      open_dev = (\<lambda>b. 3), set_slave_addr = (\<lambda>a. 0), chip = tr,
      open_output = (\<lambda>p. 4), open_input = (\<lambda>p. 5),
      input_file = (\<lambda>p. img), mmap_fails = (\<lambda>p. img = [])\<rparr>"

definition s0 :: state where
  "s0 = \<lparr>bus_log = [], outfile = []\<rparr>"

section \<open>Expected traces\<close>

text \<open>
  The definitions of this section do not come from the program: they say what the
  results below expect of it, in the words of the specification.

  No operation changes anything but the log of the bus and the output file: \<open>emit\<close>
  appends events to the log, \<open>put\<close> appends bytes to the output file.
\<close>

definition emit :: "event list \<Rightarrow> state \<Rightarrow> state" where
  "emit evs st = st\<lparr>bus_log := bus_log st @ evs\<rparr>"

definition put :: "byte list \<Rightarrow> state \<Rightarrow> state" where
  "put bs st = st\<lparr>outfile := outfile st @ bs\<rparr>"

text \<open>
  The events of one attempt to enter the bootloader: the reset of the CTPM, for the
  FT5x26 the switch from HID to I2C, the write of \<open>0x55, 0xAA\<close>; then the delay and the
  read of the bootloader id.  \<open>id_ok\<close> says that a reply to that read carries the two id
  bytes of the chip.
\<close>

definition reset_events :: "ft5x06_fw_update_info \<Rightarrow> event list" where
  "reset_events info =
     [I2C_Write [0xfc, 0xAA], Msleep (delay_aa info), I2C_Write [0xfc, 0x55],
      Msleep (delay_55 info)]"

definition pre_enter_events :: "int \<Rightarrow> ft5x06_fw_update_info \<Rightarrow> event list" where
  "pre_enter_events cid info =
     reset_events info
     @ (if cid = FT5x26_ID then [I2C_Write [0xeb, 0xaa, 0x09], I2C_Read [] 3, Msleep 10] else [])"

definition enter_events :: "int \<Rightarrow> ft5x06_fw_update_info \<Rightarrow> event list" where
  "enter_events cid info = pre_enter_events cid info @ [I2C_Write [0x55, 0xAA]]"

definition id_events :: "ft5x06_fw_update_info \<Rightarrow> event list" where
  "id_events info = [Msleep (delay_readid info), I2C_Read [0x90, 0x00, 0x00, 0x00] 2]"

definition id_ok :: "ft5x06_fw_update_info \<Rightarrow> int \<times> (nat \<Rightarrow> byte) \<Rightarrow> bool" where
  "id_ok info rep \<longleftrightarrow> snd rep 0 = upgrade_id_1 info \<and> snd rep 1 = upgrade_id_2 info"

text \<open>
  The passes of the loop of \<^verbatim>\<open>ft5x06_init_upgrade\<close>, as the description of the
  bootloader entry has them.  After the log \<open>h\<close>, one pass resets the CTPM and writes
  \<open>0x55, 0xAA\<close>; \<open>enter_fails\<close> says that the transport answers this write with an error,
  and then the pass ends there.  Otherwise the pass goes on with the delay and the read
  of the id, and \<open>pass_ok\<close> says that the reply to this read carries the id pair of the
  chip.  \<open>passes tr cid info h n\<close> are the events of \<open>n\<close> passes in a row, the first one
  after the log \<open>h\<close>.
\<close>

definition enter_fails :: "transport \<Rightarrow> int \<Rightarrow> ft5x06_fw_update_info \<Rightarrow> event list \<Rightarrow> bool" where
  "enter_fails tr cid info h \<longleftrightarrow>
     fst (tr (h @ pre_enter_events cid info) (I2C_Write [0x55, 0xAA])) < 0"

definition pass_events ::
  "transport \<Rightarrow> int \<Rightarrow> ft5x06_fw_update_info \<Rightarrow> event list \<Rightarrow> event list" where
  "pass_events tr cid info h =
     enter_events cid info @ (if enter_fails tr cid info h then [] else id_events info)"

definition pass_ok :: "transport \<Rightarrow> int \<Rightarrow> ft5x06_fw_update_info \<Rightarrow> event list \<Rightarrow> bool" where
  "pass_ok tr cid info h \<longleftrightarrow>
     (if enter_fails tr cid info h then False
      else id_ok info (tr (h @ enter_events cid info @ [Msleep (delay_readid info)])
                         (I2C_Read [0x90, 0x00, 0x00, 0x00] 2)))"

fun passes ::
  "transport \<Rightarrow> int \<Rightarrow> ft5x06_fw_update_info \<Rightarrow> event list \<Rightarrow> nat \<Rightarrow> event list" where
  "passes tr cid info h 0 = []"
| "passes tr cid info h (Suc k) =
     pass_events tr cid info h @ passes tr cid info (h @ pass_events tr cid info h) k"

text \<open>
  \<open>n\<close> polls of the flash status: each a sleep of 5 ms and a read of two bytes from
  register \<open>0x6A\<close>.  \<open>status_ok tr offset h\<close>: after the log \<open>h\<close>, the chip answers such a
  read with \<open>0x1000 + offset / 128\<close>, high byte first.
\<close>

definition poll_events :: "nat \<Rightarrow> event list" where
  "poll_events n = concat (replicate n [Msleep 5, I2C_Read [0x6a] 2])"

definition status_ok :: "transport \<Rightarrow> nat \<Rightarrow> event list \<Rightarrow> bool" where
  "status_ok tr offset h \<longleftrightarrow>
     offset div 128 + 0x1000
       = (push_bit 8 (unat (snd (tr h (I2C_Read [0x6a] 2)) 0))
          OR unat (snd (tr h (I2C_Read [0x6a] 2)) 1))"

text \<open>
  The programming packets of a log are its writes that start with \<open>0xBF\<close>.  The packet
  that the specification expects at \<open>offset\<close> of an image: the header
  \<open>0xBF, 0x00, high(offset), low(offset), high(n), low(n)\<close> with
  \<open>n = min 128 (L - offset)\<close>, then \<open>n\<close> bytes of the image.  The ECC of an image is the
  XOR of its bytes.  The events between the entry of the bootloader and the first packet:
  the erase commands, the delay, the announcement of the length.
\<close>

definition prog_packets :: "event list \<Rightarrow> byte list list" where
  "prog_packets evs =
     concat (map (\<lambda>e. case e of I2C_Write buf \<Rightarrow> if take 1 buf = [0xbf] then [buf] else []
                         | _ \<Rightarrow> []) evs)"

definition packet_at :: "byte list \<Rightarrow> nat \<Rightarrow> byte list" where
  "packet_at data offset =
     [0xbf, 0x00, of_nat (offset div 256), of_nat (offset mod 256),
      of_nat (min 128 (length data - offset) div 256),
      of_nat (min 128 (length data - offset) mod 256)]
     @ take (min 128 (length data - offset)) (drop offset data)"

definition xor_sum :: "byte list \<Rightarrow> byte" where
  "xor_sum bs = foldr (XOR) bs 0"

definition erase_events :: "int \<Rightarrow> ft5x06_fw_update_info \<Rightarrow> nat \<Rightarrow> event list" where
  "erase_events cid info data_len =
     I2C_Write [0x61]
     # (if cid \<noteq> FT5x26_ID then [I2C_Write [0x63]] else [])
     @ [Msleep (delay_erase_flash info),
        I2C_Write [0xB0, of_nat (drop_bit 16 data_len AND 0xFF),
                   of_nat (drop_bit 8 data_len AND 0xFF), of_nat (data_len AND 0xFF)]]"

text \<open>
  The read packet at \<open>offset\<close>: a write of \<open>0x03, 0x00, high(offset), low(offset)\<close> with a
  read of 256 bytes.  \<open>read_events a b\<close> are the events of the packets number \<open>a\<close> to
  \<open>b - 1\<close> of a dump, each after a sleep of 10 ms.  \<open>chunk tr h j\<close> are the 256 bytes that
  the chip delivers for packet \<open>j\<close> of a dump that started after the log \<open>h\<close>.
\<close>

definition read_packet_at :: "nat \<Rightarrow> event" where
  "read_packet_at offset =
     I2C_Read [0x03, 0x00, of_nat (offset div 256), of_nat (offset mod 256)] 256"

definition read_events :: "nat \<Rightarrow> nat \<Rightarrow> event list" where
  "read_events a b = concat (map (\<lambda>j. [Msleep 10, read_packet_at (256 * j)]) [a..<b])"

definition chunk :: "transport \<Rightarrow> event list \<Rightarrow> nat \<Rightarrow> byte list" where
  "chunk tr h j =
     map (snd (tr (h @ read_events 0 j @ [Msleep 10]) (read_packet_at (256 * j)))) [0..<256]"

section \<open>Entering the bootloader: results\<close>

lemma emit_simps [simp]:
  "bus_log (emit evs st) = bus_log st @ evs"
  "outfile (emit evs st) = outfile st"
  "emit evs (emit evs' st) = emit (evs' @ evs) st"
  by (simp_all add: emit_def)

lemma emit_Nil [simp]: "emit [] st = st"
  by (simp add: emit_def)

lemma msleep_emit: "msleep d st = emit [Msleep d] st"
  by (simp add: msleep_def emit_def)

lemma i2c_write_emit:
  "ft5x06_i2c_write tr buf st = (fst (tr (bus_log st) (I2C_Write buf)), emit [I2C_Write buf] st)"
  by (simp add: ft5x06_i2c_write_def emit_def)

lemma i2c_read_emit:
  "ft5x06_i2c_read tr wrbuf rdlen st =
     (fst (tr (bus_log st) (I2C_Read wrbuf rdlen)),
      map (snd (tr (bus_log st) (I2C_Read wrbuf rdlen))) [0..<rdlen],
      emit [I2C_Read wrbuf rdlen] st)"
  by (simp add: ft5x06_i2c_read_def emit_def split: prod.splits)

lemma write_reg_emit: "ft5x06_write_reg tr r v st = emit [I2C_Write [r, v]] st"
  by (simp add: ft5x06_write_reg_def i2c_write_emit)

lemma reset_ctpm_emit:
  "ft5x06_get_info cid = Some info \<Longrightarrow>
   ft5x06_reset_ctpm tr cid st = Some (emit (reset_events info) st)"
  by (simp add: ft5x06_reset_ctpm_def write_reg_emit msleep_emit reset_events_def)

lemma hid_to_i2c_emit:
  "ft5x26_hid_to_i2c tr st = emit [I2C_Write [0xeb, 0xaa, 0x09], I2C_Read [] 3, Msleep 10] st"
  by (simp add: ft5x26_hid_to_i2c_def i2c_write_emit i2c_read_emit msleep_emit)

lemma read_id_emit:
  "ft5x06_get_info cid = Some info \<Longrightarrow>
   ft5x06_read_id tr cid st =
     Some (if id_ok info (tr (bus_log st @ [Msleep (delay_readid info)])
                            (I2C_Read [0x90, 0x00, 0x00, 0x00] 2))
           then 0 else - 1,
           emit (id_events info) st)"
  by (simp add: ft5x06_read_id_def i2c_read_emit msleep_emit id_ok_def id_events_def
      upt_rec [of 0] upt_rec [of 1] upt_rec[of "Suc 0"])

lemma init_loop_unfold:
  assumes "ft5x06_get_info cid = Some info"
  shows "ft5x06_init_upgrade_loop tr cid i st =
     (if i < FT_UPGRADE_LOOP then
        if fst (tr (bus_log st @ pre_enter_events cid info) (I2C_Write [0x55, 0xAA])) < 0
        then ft5x06_init_upgrade_loop tr cid (i + 1) (emit (enter_events cid info) st)
        else if id_ok info (tr (bus_log st @ enter_events cid info @ [Msleep (delay_readid info)])
                            (I2C_Read [0x90, 0x00, 0x00, 0x00] 2))
        then Some (i, emit (enter_events cid info @ id_events info) st)
        else ft5x06_init_upgrade_loop tr cid (i + 1)
               (emit (enter_events cid info @ id_events info) st)
      else Some (i, st))"
  by (subst ft5x06_init_upgrade_loop.simps)
     (simp add: reset_ctpm_emit [OF assms] read_id_emit [OF assms] hid_to_i2c_emit
       i2c_write_emit enter_events_def pre_enter_events_def)

lemma init_loop_ge:
  assumes "ft5x06_get_info cid = Some info"
  shows "i \<ge> FT_UPGRADE_LOOP \<Longrightarrow> ft5x06_init_upgrade_loop tr cid i st = Some (i, st)"
  by (subst init_loop_unfold [OF assms]) simp

lemma split_at_fresh:
  "x \<notin> set A \<Longrightarrow> A @ B = p @ x # q \<Longrightarrow> \<exists>p'. p = A @ p' \<and> B = p' @ x # q"
proof (induction A arbitrary: p)
  case Nil
  then show ?case by simp
next
  case (Cons a A)
  then show ?case by (cases p) auto
qed

lemma enter_events_counts:
  "count_list (enter_events cid info) (I2C_Write [0x55, 0xAA]) = 1"
  "count_list (enter_events cid info) (I2C_Write [0xfc, 0xAA]) = 1"
  "count_list (id_events info) (I2C_Write [0x55, 0xAA]) = 0"
  "count_list (id_events info) (I2C_Write [0xfc, 0xAA]) = 0"
  "count_list (enter_events cid info) (I2C_Write [0xfc, 0x55]) = 1"
  "count_list (id_events info) (I2C_Write [0xfc, 0x55]) = 0"
  "I2C_Read [0x90, 0x00, 0x00, 0x00] 2 \<notin> set (enter_events cid info)"
  by (simp_all add: enter_events_def pre_enter_events_def reset_events_def id_events_def)

lemma init_loop_trace:
  assumes info: "ft5x06_get_info cid = Some info"
  shows "i \<le> FT_UPGRADE_LOOP \<Longrightarrow>
    \<exists>j evs. ft5x06_init_upgrade_loop tr cid i st = Some (j, emit evs st)
      \<and> i \<le> j \<and> j \<le> FT_UPGRADE_LOOP
      \<and> count_list evs (I2C_Write [0x55, 0xAA]) = (if j < FT_UPGRADE_LOOP then Suc j - i else FT_UPGRADE_LOOP - i)
      \<and> count_list evs (I2C_Write [0xfc, 0xAA]) = count_list evs (I2C_Write [0x55, 0xAA])
      \<and> count_list evs (I2C_Write [0xfc, 0x55]) = count_list evs (I2C_Write [0x55, 0xAA])
      \<and> set evs \<subseteq> set (enter_events cid info @ id_events info)
      \<and> ((\<forall>h. \<not> id_ok info (tr h (I2C_Read [0x90, 0x00, 0x00, 0x00] 2))) \<longrightarrow> j = FT_UPGRADE_LOOP)
      \<and> (\<forall>p q. evs = p @ I2C_Read [0x90, 0x00, 0x00, 0x00] 2 # q
             \<longrightarrow> id_ok info (tr (bus_log st @ p) (I2C_Read [0x90, 0x00, 0x00, 0x00] 2))
             \<longrightarrow> q = [] \<and> j < FT_UPGRADE_LOOP)
      \<and> (j < FT_UPGRADE_LOOP \<longrightarrow>
            (\<exists>p. evs = p @ [I2C_Read [0x90, 0x00, 0x00, 0x00] 2]
               \<and> id_ok info (tr (bus_log st @ p) (I2C_Read [0x90, 0x00, 0x00, 0x00] 2))))"
    (is "_ \<Longrightarrow> \<exists>j evs. ?P i st j evs")
proof (induction "FT_UPGRADE_LOOP - i" arbitrary: i st)
  case 0
  then have "i = FT_UPGRADE_LOOP" by simp
  then have "?P i st i []"
    by (simp add: init_loop_ge [OF info])
  then show ?case by blast
next
  case (Suc n)
  let ?R = "I2C_Read [0x90, 0x00, 0x00, 0x00] 2"
  let ?E = "enter_events cid info"
  let ?D = "Msleep (delay_readid info)"
  from Suc.hyps(2) have lt: "i < FT_UPGRADE_LOOP" and n: "n = FT_UPGRADE_LOOP - (i + 1)"
    and le: "i + 1 \<le> FT_UPGRADE_LOOP"
    by simp_all
  have fresh: "?R \<notin> set ?E" "?R \<notin> set (?E @ [?D])"
    by (simp_all add: enter_events_counts)
  consider
      (fail) "fst (tr (bus_log st @ pre_enter_events cid info) (I2C_Write [0x55, 0xAA])) < 0"
    | (match) "\<not> fst (tr (bus_log st @ pre_enter_events cid info) (I2C_Write [0x55, 0xAA])) < 0"
        "id_ok info (tr (bus_log st @ ?E @ [?D]) ?R)"
    | (mismatch) "\<not> fst (tr (bus_log st @ pre_enter_events cid info) (I2C_Write [0x55, 0xAA])) < 0"
        "\<not> id_ok info (tr (bus_log st @ ?E @ [?D]) ?R)"
    by blast
  then show ?case
  proof cases
    case fail
    from Suc.hyps(1) [OF n le, of "emit ?E st"]
    obtain j evs where IH: "?P (i + 1) (emit ?E st) j evs" by blast
    have run: "ft5x06_init_upgrade_loop tr cid i st = Some (j, emit (?E @ evs) st)"
      using lt fail IH by (subst init_loop_unfold [OF info]) simp
    have tr: "q = [] \<and> j < FT_UPGRADE_LOOP"
      if "?E @ evs = p @ ?R # q" "id_ok info (tr (bus_log st @ p) ?R)" for p q
    proof -
      from split_at_fresh [OF fresh(1) that(1)]
      obtain p' where "p = ?E @ p'" "evs = p' @ ?R # q" by blast
      with IH that(2) show ?thesis by simp
    qed
    have "?P i st j (?E @ evs)"
      apply (intro conjI)
      subgoal by (rule run)
      subgoal using IH by simp
      subgoal using IH by simp
      subgoal using IH lt by (auto simp: enter_events_counts)
      subgoal using IH by (simp add: enter_events_counts)
      subgoal using IH by (simp add: enter_events_counts)
      subgoal using IH by auto
      subgoal using IH by simp
      subgoal using tr by blast
      subgoal using IH by auto
      done
    then show ?thesis by blast
  next
    case match
    have run: "ft5x06_init_upgrade_loop tr cid i st = Some (i, emit (?E @ id_events info) st)"
      using lt match by (subst init_loop_unfold [OF info]) simp
    have tr: "q = []"
      if "?E @ id_events info = p @ ?R # q" for p q
    proof -
      from that have "(?E @ [?D]) @ [?R] = p @ ?R # q" by (simp add: id_events_def)
      from split_at_fresh [OF fresh(2) this]
      obtain p' where "[?R] = p' @ ?R # q" by blast
      then show ?thesis by (cases p') auto
    qed
    have last: "?E @ id_events info = (?E @ [?D]) @ [?R]"
      by (simp add: id_events_def)
    have "?P i st i (?E @ id_events info)"
      apply (intro conjI)
      subgoal by (rule run)
      subgoal by simp
      subgoal using lt by simp
      subgoal using lt by (simp add: enter_events_counts)
      subgoal by (simp add: enter_events_counts)
      subgoal by (simp add: enter_events_counts)
      subgoal by simp
      subgoal using match(2) by blast
      subgoal using tr lt by blast
      subgoal using match(2) last by (metis append_assoc)
      done
    then show ?thesis by blast
  next
    case mismatch
    from Suc.hyps(1) [OF n le, of "emit (?E @ id_events info) st"]
    obtain j evs where IH: "?P (i + 1) (emit (?E @ id_events info) st) j evs" by blast
    have run: "ft5x06_init_upgrade_loop tr cid i st
                 = Some (j, emit ((?E @ id_events info) @ evs) st)"
      using lt mismatch IH by (subst init_loop_unfold [OF info]) simp
    have tr: "q = [] \<and> j < FT_UPGRADE_LOOP"
      if "(?E @ id_events info) @ evs = p @ ?R # q" "id_ok info (tr (bus_log st @ p) ?R)" for p q
    proof -
      from that(1) have "(?E @ [?D]) @ (?R # evs) = p @ ?R # q" by (simp add: id_events_def)
      from split_at_fresh [OF fresh(2) this]
      obtain p' where p: "p = (?E @ [?D]) @ p'" and e: "?R # evs = p' @ ?R # q" by blast
      show ?thesis
      proof (cases p')
        case Nil
        with p that(2) mismatch(2) show ?thesis by simp
      next
        case (Cons a p'')
        with e have "evs = p'' @ ?R # q" "a = ?R" by simp_all
        moreover from p Cons \<open>a = ?R\<close> have "p = (?E @ id_events info) @ p''"
          by (simp add: id_events_def)
        ultimately show ?thesis using IH that(2) by simp
      qed
    qed
    have "?P i st j ((?E @ id_events info) @ evs)"
      apply (intro conjI)
      subgoal by (rule run)
      subgoal using IH by simp
      subgoal using IH by simp
      subgoal using IH lt by (auto simp: enter_events_counts)
      subgoal using IH by (simp add: enter_events_counts)
      subgoal using IH by (simp add: enter_events_counts)
      subgoal using IH by auto
      subgoal using IH by simp
      subgoal using tr by blast
      subgoal using IH by auto
      done
    then show ?thesis by blast
  qed
qed

lemma get_info_ft5x06:
  "ft5x06_get_info 0x55 = Some (mk_info 0x55 ''ft5x06'' 5 1 50 30 0x79 0x03 10 2000 0x0000)"
  by (simp add: ft5x06_get_info_def ft5x06_fwu_info_def to_unsigned_def mk_info_def)

lemma get_info_ft5x16:
  "ft5x06_get_info 0x0a = Some (mk_info 0x0a ''ft5x16'' 5 1 50 30 0x79 0x07 10 1500 0x0000)"
  by (simp add: ft5x06_get_info_def ft5x06_fwu_info_def to_unsigned_def mk_info_def)

lemma get_info_ft5x26:
  "ft5x06_get_info 0x54 = Some (mk_info 0x54 ''ft5x26'' 5 0 4 250 0x54 0x2c 10 3000 0x1800)"
  by (simp add: ft5x06_get_info_def ft5x06_fwu_info_def to_unsigned_def mk_info_def)

lemma init_upgrade_trace:
  assumes info: "ft5x06_get_info cid = Some info"
  shows "\<exists>r evs. ft5x06_init_upgrade tr cid st = Some (r, emit evs st)
      \<and> (r = 0 \<or> r = - EIO)
      \<and> set evs \<subseteq> set (enter_events cid info @ id_events info)
      \<and> take 1 evs = [I2C_Write [0xfc, 0xAA]]"
proof -
  let ?E = "enter_events cid info"
  have first: "take 1 (?E @ evs) = [I2C_Write [0xfc, 0xAA]]" for evs
    by (simp add: enter_events_def pre_enter_events_def reset_events_def)
  have "\<exists>j evs. ft5x06_init_upgrade_loop tr cid 0 st = Some (j, emit (?E @ evs) st)
          \<and> set evs \<subseteq> set (?E @ id_events info)"
  proof -
    consider
        (fail) "fst (tr (bus_log st @ pre_enter_events cid info) (I2C_Write [0x55, 0xAA])) < 0"
      | (match) "\<not> fst (tr (bus_log st @ pre_enter_events cid info) (I2C_Write [0x55, 0xAA])) < 0"
          "id_ok info (tr (bus_log st @ ?E @ [Msleep (delay_readid info)])
                          (I2C_Read [0x90, 0x00, 0x00, 0x00] 2))"
      | (mismatch) "\<not> fst (tr (bus_log st @ pre_enter_events cid info) (I2C_Write [0x55, 0xAA])) < 0"
          "\<not> id_ok info (tr (bus_log st @ ?E @ [Msleep (delay_readid info)])
                          (I2C_Read [0x90, 0x00, 0x00, 0x00] 2))"
      by blast
    then show ?thesis
    proof cases
      case fail
      from init_loop_trace [OF info, of 1 tr "emit ?E st"]
      obtain j evs where
        rest: "ft5x06_init_upgrade_loop tr cid 1 (emit ?E st) = Some (j, emit evs (emit ?E st))"
        and sub: "set evs \<subseteq> set (?E @ id_events info)"
        by (auto simp: FT_UPGRADE_LOOP_def)
      from fail rest have "ft5x06_init_upgrade_loop tr cid 0 st = Some (j, emit (?E @ evs) st)"
        by (subst init_loop_unfold [OF info]) (simp add: FT_UPGRADE_LOOP_def)
      with sub show ?thesis by blast
    next
      case match
      then have "ft5x06_init_upgrade_loop tr cid 0 st = Some (0, emit (?E @ id_events info) st)"
        by (subst init_loop_unfold [OF info]) (simp add: FT_UPGRADE_LOOP_def)
      then show ?thesis by auto
    next
      case mismatch
      from init_loop_trace [OF info, of 1 tr "emit (?E @ id_events info) st"]
      obtain j evs where
        rest: "ft5x06_init_upgrade_loop tr cid 1 (emit (?E @ id_events info) st)
           = Some (j, emit evs (emit (?E @ id_events info) st))"
        and sub: "set evs \<subseteq> set (?E @ id_events info)"
        by (auto simp: FT_UPGRADE_LOOP_def)
      from mismatch rest have "ft5x06_init_upgrade_loop tr cid 0 st
           = Some (j, emit (?E @ id_events info @ evs) st)"
        by (subst init_loop_unfold [OF info]) (simp add: FT_UPGRADE_LOOP_def)
      moreover from sub have "set (id_events info @ evs) \<subseteq> set (?E @ id_events info)"
        by auto
      ultimately show ?thesis by blast
    qed
  qed
  then obtain j evs where "ft5x06_init_upgrade_loop tr cid 0 st = Some (j, emit (?E @ evs) st)"
    and "set evs \<subseteq> set (?E @ id_events info)"
    by blast
  then have "ft5x06_init_upgrade tr cid st
               = Some (if j \<ge> FT_UPGRADE_LOOP then - EIO else 0, emit (?E @ evs) st)"
    "set (?E @ evs) \<subseteq> set (?E @ id_events info)"
    by (auto simp: ft5x06_init_upgrade_def)
  with first [of evs] show ?thesis
    by (intro exI [of _ "if j \<ge> FT_UPGRADE_LOOP then - EIO else 0"] exI [of _ "?E @ evs"]) simp
qed

lemma emit_inj: "emit a st = emit b st \<Longrightarrow> a = b"
proof -
  assume "emit a st = emit b st"
  then have "bus_log (emit a st) = bus_log (emit b st)" by simp
  then show "a = b" by simp
qed

lemma init_loop_step:
  assumes "ft5x06_get_info cid = Some info" and "i < FT_UPGRADE_LOOP"
  shows "ft5x06_init_upgrade_loop tr cid i st =
     (if pass_ok tr cid info (bus_log st)
      then Some (i, emit (pass_events tr cid info (bus_log st)) st)
      else ft5x06_init_upgrade_loop tr cid (i + 1)
             (emit (pass_events tr cid info (bus_log st)) st))"
  using assms(2)
  by (subst init_loop_unfold [OF assms(1)])
     (simp add: pass_ok_def pass_events_def enter_fails_def)

lemma init_loop_passes:
  assumes info: "ft5x06_get_info cid = Some info"
  shows "i \<le> FT_UPGRADE_LOOP \<Longrightarrow>
    \<exists>m j. ft5x06_init_upgrade_loop tr cid i st
             = Some (j, emit (passes tr cid info (bus_log st) m) st)
      \<and> i + m \<le> FT_UPGRADE_LOOP
      \<and> (\<forall>k. Suc k < m \<longrightarrow>
            \<not> pass_ok tr cid info (bus_log st @ passes tr cid info (bus_log st) k))
      \<and> (j < FT_UPGRADE_LOOP \<longrightarrow>
            1 \<le> m \<and> Suc j = i + m
            \<and> pass_ok tr cid info (bus_log st @ passes tr cid info (bus_log st) (m - 1)))
      \<and> (\<not> j < FT_UPGRADE_LOOP \<longrightarrow>
            i + m = FT_UPGRADE_LOOP
            \<and> (1 \<le> m \<longrightarrow>
                 \<not> pass_ok tr cid info (bus_log st @ passes tr cid info (bus_log st) (m - 1))))"
    (is "_ \<Longrightarrow> \<exists>m j. ?P i st m j")
proof (induction "FT_UPGRADE_LOOP - i" arbitrary: i st)
  case 0
  then have "i = FT_UPGRADE_LOOP" by simp
  then have "?P i st 0 i"
    by (simp add: init_loop_ge [OF info])
  then show ?case by blast
next
  case (Suc n)
  from Suc.hyps(2) have lt: "i < FT_UPGRADE_LOOP" and n: "n = FT_UPGRADE_LOOP - (i + 1)"
    and le: "i + 1 \<le> FT_UPGRADE_LOOP"
    by simp_all
  let ?h = "bus_log st"
  let ?pe = "pass_events tr cid info ?h"
  show ?case
  proof (cases "pass_ok tr cid info ?h")
    case True
    have "?P i st 1 i"
      apply (intro conjI)
      subgoal using True by (simp add: init_loop_step [OF info lt])
      subgoal using lt by simp
      subgoal by simp
      subgoal using True by simp
      subgoal using lt by simp
      done
    then show ?thesis by blast
  next
    case False
    from Suc.hyps(1) [OF n le, of "emit ?pe st"]
    obtain m j where IH: "?P (i + 1) (emit ?pe st) m j" by blast
    have run: "ft5x06_init_upgrade_loop tr cid i st
                 = Some (j, emit (passes tr cid info ?h (Suc m)) st)"
      using False IH by (simp add: init_loop_step [OF info lt])
    have early: "\<not> pass_ok tr cid info (?h @ passes tr cid info ?h k)" if "Suc k < Suc m" for k
    proof (cases k)
      case 0
      with False show ?thesis by simp
    next
      case (Suc k')
      with that IH show ?thesis by simp
    qed
    have last_ok: "pass_ok tr cid info (?h @ passes tr cid info ?h (Suc m - 1))"
      if "j < FT_UPGRADE_LOOP"
    proof -
      from that IH have "1 \<le> m"
        and "pass_ok tr cid info (bus_log (emit ?pe st)
               @ passes tr cid info (bus_log (emit ?pe st)) (m - 1))"
        by simp_all
      then show ?thesis by (cases m) simp_all
    qed
    have last_bad: "\<not> pass_ok tr cid info (?h @ passes tr cid info ?h (Suc m - 1))"
      if "\<not> j < FT_UPGRADE_LOOP"
    proof (cases m)
      case 0
      with False show ?thesis by simp
    next
      case (Suc m')
      with that IH show ?thesis by simp
    qed
    have "?P i st (Suc m) j"
      apply (intro conjI)
      subgoal by (rule run)
      subgoal using IH by simp
      subgoal using early by blast
      subgoal using IH last_ok by simp
      subgoal using IH last_bad by simp
      done
    then show ?thesis by blast
  qed
qed

text \<open>
  C5.  For a chip of the table, \<^verbatim>\<open>ft5x06_init_upgrade\<close> returns 0 or \<open>-EIO\<close>, and the events
  \<open>evs\<close> it adds to the log are those of \<open>n\<close> passes, with \<open>1 \<le> n \<le> 30\<close>: each pass resets the
  CTPM (a write of \<open>0xAA\<close> and one of \<open>0x55\<close> to register \<open>0xFC\<close>), writes \<open>0x55, 0xAA\<close> and,
  unless this write failed, waits and reads the id.  No pass before the last one reads
  the id pair of the chip; the result is 0 exactly when the last pass reads it, so the
  first pass that reads the id pair ends the loop with success; the result \<open>-EIO\<close> comes
  only after 30 passes.  So \<open>evs\<close> holds \<open>n\<close> writes of \<open>0x55, 0xAA\<close>, at most 30, with one
  reset for each of them.  Against a transport that never answers the read of the id
  with the id pair of the chip, the result is \<open>-EIO\<close> after exactly 30 such writes and 30
  resets.  A read of the id that is answered with the id pair is the last event of the
  run, and the result is then 0; and a result 0 always ends with such a read.
\<close>

theorem init_upgrade_retry_bound:
  assumes "ft5x06_get_info cid = Some info"
  shows "\<exists>r evs n. ft5x06_init_upgrade tr cid st = Some (r, st\<lparr>bus_log := bus_log st @ evs\<rparr>)
      \<and> (r = 0 \<or> r = - EIO)
      \<and> 1 \<le> n \<and> n \<le> 30
      \<and> evs = passes tr cid info (bus_log st) n
      \<and> (\<forall>k. Suc k < n \<longrightarrow>
            \<not> pass_ok tr cid info (bus_log st @ passes tr cid info (bus_log st) k))
      \<and> (r = 0 \<longleftrightarrow> pass_ok tr cid info (bus_log st @ passes tr cid info (bus_log st) (n - 1)))
      \<and> (r = - EIO \<longrightarrow> n = 30)
      \<and> count_list evs (I2C_Write [0x55, 0xAA]) = n
      \<and> count_list evs (I2C_Write [0x55, 0xAA]) \<le> 30
      \<and> count_list evs (I2C_Write [0xfc, 0xAA]) = count_list evs (I2C_Write [0x55, 0xAA])
      \<and> count_list evs (I2C_Write [0xfc, 0x55]) = count_list evs (I2C_Write [0x55, 0xAA])
      \<and> ((\<forall>h. \<not> id_ok info (tr h (I2C_Read [0x90, 0x00, 0x00, 0x00] 2)))
           \<longrightarrow> r = - EIO \<and> count_list evs (I2C_Write [0x55, 0xAA]) = 30)
      \<and> (\<forall>p q. evs = p @ I2C_Read [0x90, 0x00, 0x00, 0x00] 2 # q
             \<and> id_ok info (tr (bus_log st @ p) (I2C_Read [0x90, 0x00, 0x00, 0x00] 2))
             \<longrightarrow> q = [] \<and> r = 0)
      \<and> (r = 0 \<longrightarrow>
            (\<exists>p. evs = p @ [I2C_Read [0x90, 0x00, 0x00, 0x00] 2]
               \<and> id_ok info (tr (bus_log st @ p) (I2C_Read [0x90, 0x00, 0x00, 0x00] 2))))"
proof -
  let ?R = "I2C_Read [0x90, 0x00, 0x00, 0x00] 2"
  let ?W = "I2C_Write [0x55, 0xAA]"
  let ?h = "bus_log st"
  from init_loop_trace [OF assms, of 0 tr st]
  obtain j evs where run: "ft5x06_init_upgrade_loop tr cid 0 st = Some (j, emit evs st)"
    and j: "j \<le> FT_UPGRADE_LOOP"
    and cnt: "count_list evs ?W = (if j < FT_UPGRADE_LOOP then Suc j - 0 else FT_UPGRADE_LOOP - 0)"
    and rst: "count_list evs (I2C_Write [0xfc, 0xAA]) = count_list evs ?W"
      "count_list evs (I2C_Write [0xfc, 0x55]) = count_list evs ?W"
    and wrong: "(\<forall>h. \<not> id_ok info (tr h ?R)) \<longrightarrow> j = FT_UPGRADE_LOOP"
    and imm: "\<forall>p q. evs = p @ ?R # q \<longrightarrow> id_ok info (tr (bus_log st @ p) ?R)
                \<longrightarrow> q = [] \<and> j < FT_UPGRADE_LOOP"
    and ok: "j < FT_UPGRADE_LOOP \<longrightarrow> (\<exists>p. evs = p @ [?R] \<and> id_ok info (tr (bus_log st @ p) ?R))"
    by blast
  from init_loop_passes [OF assms, of 0 tr st]
  obtain m j' where run': "ft5x06_init_upgrade_loop tr cid 0 st
                             = Some (j', emit (passes tr cid info ?h m) st)"
    and m30: "0 + m \<le> FT_UPGRADE_LOOP"
    and early: "\<forall>k. Suc k < m \<longrightarrow> \<not> pass_ok tr cid info (?h @ passes tr cid info ?h k)"
    and succ: "j' < FT_UPGRADE_LOOP \<longrightarrow>
            1 \<le> m \<and> Suc j' = 0 + m \<and> pass_ok tr cid info (?h @ passes tr cid info ?h (m - 1))"
    and fail: "\<not> j' < FT_UPGRADE_LOOP \<longrightarrow>
            0 + m = FT_UPGRADE_LOOP
            \<and> (1 \<le> m \<longrightarrow> \<not> pass_ok tr cid info (?h @ passes tr cid info ?h (m - 1)))"
    by (auto simp: FT_UPGRADE_LOOP_def)
  from run run' have jj: "j' = j" and ev: "evs = passes tr cid info ?h m"
    by (auto dest: emit_inj)
  let ?r = "if j \<ge> FT_UPGRADE_LOOP then - EIO else 0"
  have res: "ft5x06_init_upgrade tr cid st = Some (?r, st\<lparr>bus_log := bus_log st @ evs\<rparr>)"
    using run by (simp add: ft5x06_init_upgrade_def emit_def)
  have r0: "?r = 0 \<longleftrightarrow> j < FT_UPGRADE_LOOP"
    by (simp add: EIO_def)
  have m1: "1 \<le> m" and m30': "m \<le> 30"
    using succ fail m30 unfolding jj by (auto simp: FT_UPGRADE_LOOP_def)
  have cm: "count_list evs ?W = m"
    using cnt succ fail unfolding jj by (auto simp: FT_UPGRADE_LOOP_def)
  have a: "?r = 0 \<longleftrightarrow> pass_ok tr cid info (?h @ passes tr cid info ?h (m - 1))"
    using succ fail m1 unfolding jj r0 by blast
  have b: "?r = - EIO \<longrightarrow> m = 30"
    using fail unfolding jj by (auto simp: FT_UPGRADE_LOOP_def EIO_def)
  have c: "(\<forall>h. \<not> id_ok info (tr h ?R)) \<longrightarrow> ?r = - EIO \<and> count_list evs ?W = 30"
    using wrong cnt by (simp add: FT_UPGRADE_LOOP_def)
  have d: "\<forall>p q. evs = p @ ?R # q \<and> id_ok info (tr (bus_log st @ p) ?R) \<longrightarrow> q = [] \<and> ?r = 0"
    using imm r0 by blast
  have e: "?r = 0 \<longrightarrow> (\<exists>p. evs = p @ [?R] \<and> id_ok info (tr (bus_log st @ p) ?R))"
    using ok r0 by blast
  have f: "?r = 0 \<or> ?r = - EIO" by simp
  have g: "count_list evs ?W \<le> 30" using cm m30' by simp
  show ?thesis
    apply (rule exI [of _ ?r], rule exI [of _ evs], rule exI [of _ m])
    apply (intro conjI)
    subgoal by (rule res)
    subgoal by (rule f)
    subgoal by (rule m1)
    subgoal by (rule m30')
    subgoal by (rule ev)
    subgoal using early by blast
    subgoal by (rule a)
    subgoal by (rule b)
    subgoal by (rule cm)
    subgoal by (rule g)
    subgoal by (rule rst(1))
    subgoal by (rule rst(2))
    subgoal by (rule c)
    subgoal by (rule d)
    subgoal by (rule e)
    done
qed

theorem init_upgrade_retry_bound_witness:
  "(\<exists>evs. ft5x06_init_upgrade (fake_chip 0 0 0) 0x55 s0
            = Some (- EIO, s0\<lparr>bus_log := bus_log s0 @ evs\<rparr>)
         \<and> count_list evs (I2C_Write [0x55, 0xAA]) = 30
         \<and> count_list evs (I2C_Write [0xfc, 0xAA]) = 30)
   \<and> ft5x06_init_upgrade (fake_chip 0x79 0x03 0) 0x55 s0
       = Some (0, s0\<lparr>bus_log := [I2C_Write [0xfc, 0xAA], Msleep 50, I2C_Write [0xfc, 0x55],
                                  Msleep 30, I2C_Write [0x55, 0xAA], Msleep 10,
                                  I2C_Read [0x90, 0x00, 0x00, 0x00] 2]\<rparr>)"
proof
  show "\<exists>evs. ft5x06_init_upgrade (fake_chip 0 0 0) 0x55 s0
            = Some (- EIO, s0\<lparr>bus_log := bus_log s0 @ evs\<rparr>)
         \<and> count_list evs (I2C_Write [0x55, 0xAA]) = 30
         \<and> count_list evs (I2C_Write [0xfc, 0xAA]) = 30"
    using init_upgrade_retry_bound [OF get_info_ft5x06, of "fake_chip 0 0 0" s0]
    by (auto simp: id_ok_def mk_info_def fake_chip_def)
next
  let ?tr = "fake_chip 0x79 0x03 0"
  let ?info = "mk_info 0x55 ''ft5x06'' 5 1 50 30 0x79 0x03 10 2000 0x0000"
  have ok: "pass_ok ?tr 0x55 ?info h" for h
    by (simp add: pass_ok_def enter_fails_def id_ok_def fake_chip_def mk_info_def)
  have pe: "pass_events ?tr 0x55 ?info h
      = [I2C_Write [0xfc, 0xAA], Msleep 50, I2C_Write [0xfc, 0x55], Msleep 30,
         I2C_Write [0x55, 0xAA], Msleep 10, I2C_Read [0x90, 0x00, 0x00, 0x00] 2]" for h
    by (simp add: pass_events_def enter_fails_def enter_events_def pre_enter_events_def
        reset_events_def id_events_def fake_chip_def mk_info_def FT5x26_ID_def)
  from init_upgrade_retry_bound [OF get_info_ft5x06, of ?tr s0]
  obtain r evs n where res: "ft5x06_init_upgrade ?tr 0x55 s0
                               = Some (r, s0\<lparr>bus_log := bus_log s0 @ evs\<rparr>)"
    and n: "1 \<le> n" and evs: "evs = passes ?tr 0x55 ?info (bus_log s0) n"
    and early: "\<forall>k. Suc k < n \<longrightarrow>
            \<not> pass_ok ?tr 0x55 ?info (bus_log s0 @ passes ?tr 0x55 ?info (bus_log s0) k)"
    and r: "r = 0 \<longleftrightarrow> pass_ok ?tr 0x55 ?info (bus_log s0 @ passes ?tr 0x55 ?info (bus_log s0) (n - 1))"
    by blast
  from early ok have "\<not> Suc 0 < n" by blast
  with n have "n = Suc 0" by simp
  with res evs r ok show "ft5x06_init_upgrade ?tr 0x55 s0
       = Some (0, s0\<lparr>bus_log := [I2C_Write [0xfc, 0xAA], Msleep 50, I2C_Write [0xfc, 0x55],
                                  Msleep 30, I2C_Write [0x55, 0xAA], Msleep 10,
                                  I2C_Read [0x90, 0x00, 0x00, 0x00] 2]\<rparr>)"
    by (simp add: pe s0_def)
qed

section \<open>Programming packets: results\<close>

lemma poll_events_simps [simp]:
  "poll_events 0 = []"
  "poll_events (Suc n) = Msleep 5 # I2C_Read [0x6a] 2 # poll_events n"
  by (simp_all add: poll_events_def)

lemma poll_events_snoc: "poll_events n @ [Msleep 5, I2C_Read [0x6a] 2] = poll_events (Suc n)"
  by (induction n) simp_all

lemma flash_status_loop_unfold:
  "ft5x06_flash_status_loop tr offset i st =
     (if i < 5 then
        if status_ok tr offset (bus_log st @ [Msleep 5])
        then emit (poll_events 1) st
        else ft5x06_flash_status_loop tr offset (i + 1) (emit (poll_events 1) st)
      else st)"
  by (subst ft5x06_flash_status_loop.simps)
     (simp add: i2c_read_emit msleep_emit status_ok_def FT_FW_PKT_LEN_def
        upt_rec [of 0] upt_rec [of 1] upt_rec [of "Suc 0"])

lemma flash_status_loop_trace:
  "i \<le> 5 \<Longrightarrow>
   \<exists>n. ft5x06_flash_status_loop tr offset i st = emit (poll_events n) st
     \<and> n \<le> 5 - i \<and> (i < 5 \<longrightarrow> 1 \<le> n)
     \<and> (\<forall>k. Suc k < n \<longrightarrow> \<not> status_ok tr offset (bus_log st @ poll_events k @ [Msleep 5]))
     \<and> (n < 5 - i \<longrightarrow> status_ok tr offset (bus_log st @ poll_events (n - 1) @ [Msleep 5]))"
    (is "_ \<Longrightarrow> \<exists>n. ?P i st n")
proof (induction "5 - i" arbitrary: i st)
  case 0
  then have "?P i st 0"
    by (subst flash_status_loop_unfold) simp
  then show ?case by (rule exI)
next
  case (Suc m)
  then have lt: "i < 5" and m: "m = 5 - (i + 1)" and le: "i + 1 \<le> 5"
    by simp_all
  show ?case
  proof (cases "status_ok tr offset (bus_log st @ [Msleep 5])")
    case True
    then have "?P i st 1"
      using lt by (subst flash_status_loop_unfold) simp
    then show ?thesis by (rule exI)
  next
    case False
    from Suc.hyps(1) [OF m le, of "emit (poll_events 1) st"]
    obtain n where IH: "?P (i + 1) (emit (poll_events 1) st) n" by blast
    have run: "ft5x06_flash_status_loop tr offset i st = emit (poll_events (Suc n)) st"
      using lt False IH by (subst flash_status_loop_unfold) simp
    have nomatch: "\<not> status_ok tr offset (bus_log st @ poll_events k @ [Msleep 5])"
      if "Suc k < Suc n" for k
    proof (cases k)
      case 0
      with False show ?thesis by simp
    next
      case (Suc k')
      with that IH show ?thesis by simp
    qed
    have last: "status_ok tr offset (bus_log st @ poll_events (Suc n - 1) @ [Msleep 5])"
      if "Suc n < 5 - i"
    proof -
      from that have "n < 5 - (i + 1)" by simp
      moreover from that lt IH have "1 \<le> n" by simp
      ultimately show ?thesis using IH by (cases n) simp_all
    qed
    have "?P i st (Suc n)"
      apply (intro conjI)
      subgoal by (rule run)
      subgoal using IH lt by linarith
      subgoal by simp
      subgoal using nomatch by blast
      subgoal using last by blast
      done
    then show ?thesis by (rule exI)
  qed
qed

lemma prog_packets_simps [simp]:
  "prog_packets [] = []"
  "prog_packets (evs @ evs') = prog_packets evs @ prog_packets evs'"
  "prog_packets (Msleep d # evs) = prog_packets evs"
  "prog_packets (I2C_Read w n # evs) = prog_packets evs"
  "prog_packets (I2C_Write (b # bs) # evs)
     = (if b = 0xbf then [b # bs] else []) @ prog_packets evs"
  "prog_packets (I2C_Write [] # evs) = prog_packets evs"
  by (simp_all add: prog_packets_def)

lemma count_list_poll: "count_list (poll_events n) (I2C_Read [0x6a] 2) = n"
  by (induction n) simp_all

lemma prog_packets_poll [simp]: "prog_packets (poll_events n) = []"
  by (induction n) simp_all

lemma prog_packets_packet_at [simp]:
  "prog_packets (I2C_Write (packet_at data offset) # evs)
     = packet_at data offset # prog_packets evs"
  by (simp add: prog_packets_def packet_at_def)

lemma of_nat_mod_256: "(of_nat (n mod 256) :: byte) = of_nat n"
  by (simp add: word_of_nat_eq_iff take_bit_eq_mod)

lemma payload_slice:
  "offset + len \<le> length data \<Longrightarrow>
   map (\<lambda>i. data ! (offset + i)) [0..<len] = take len (drop offset data)"
  by (rule nth_equalityI) simp_all

lemma take_min_drop: "take (min n (length xs - i)) (drop i xs) = take n (drop i xs)"
  by (simp add: min_def)

lemma send_packet_trace:
  "\<exists>n. ft5x06_fw_send_packet tr cmd offset len data ecc st =
           (fold (\<lambda>b e. e XOR b) (map (\<lambda>i. data ! (offset + i)) [0..<len]) ecc,
            emit (I2C_Write ([cmd, 0x00, of_nat (offset div 256), of_nat (offset mod 256),
                              of_nat (len div 256), of_nat (len mod 256)]
                             @ map (\<lambda>i. data ! (offset + i)) [0..<len]) # poll_events n) st)
         \<and> 1 \<le> n \<and> n \<le> 5
         \<and> (\<forall>k. Suc k < n \<longrightarrow>
               \<not> status_ok tr offset
                   (bus_log st @ I2C_Write ([cmd, 0x00, of_nat (offset div 256),
                              of_nat (offset mod 256), of_nat (len div 256), of_nat (len mod 256)]
                             @ map (\<lambda>i. data ! (offset + i)) [0..<len])
                     # poll_events k @ [Msleep 5]))
         \<and> (n < 5 \<longrightarrow>
               status_ok tr offset
                   (bus_log st @ I2C_Write ([cmd, 0x00, of_nat (offset div 256),
                              of_nat (offset mod 256), of_nat (len div 256), of_nat (len mod 256)]
                             @ map (\<lambda>i. data ! (offset + i)) [0..<len])
                     # poll_events (n - 1) @ [Msleep 5]))"
proof -
  let ?pkt = "[cmd, 0x00, of_nat (offset div 256), of_nat (offset mod 256),
               of_nat (len div 256), of_nat (len mod 256)]
              @ map (\<lambda>i. data ! (offset + i)) [0..<len]"
  from flash_status_loop_trace [of 0 tr offset "emit [I2C_Write ?pkt] st"]
  obtain n where n: "ft5x06_flash_status_loop tr offset 0 (emit [I2C_Write ?pkt] st)
                       = emit (poll_events n) (emit [I2C_Write ?pkt] st)"
    "n \<le> 5" "1 \<le> n"
    "\<forall>k. Suc k < n \<longrightarrow>
       \<not> status_ok tr offset (bus_log (emit [I2C_Write ?pkt] st) @ poll_events k @ [Msleep 5])"
    "n < 5 \<longrightarrow>
       status_ok tr offset (bus_log (emit [I2C_Write ?pkt] st) @ poll_events (n - 1) @ [Msleep 5])"
    by auto
  have "ft5x06_fw_send_packet tr cmd offset len data ecc st =
           (fold (\<lambda>b e. e XOR b) (map (\<lambda>i. data ! (offset + i)) [0..<len]) ecc,
            emit (I2C_Write ?pkt # poll_events n) st)"
    using n(1)
    by (simp add: ft5x06_fw_send_packet_def i2c_write_emit
        drop_bit_eq_div of_nat_mod_256 Let_def)
  with n(2-) show ?thesis
    by (intro exI [of _ n]) simp
qed

lemma upgrade_loop_unfold_lt:
  assumes "i < length data" "length data \<le> 2 ^ 31 - 128"
  shows "\<exists>n. 1 \<le> n \<and> n \<le> 5 \<and>
     ft5x06_fw_upgrade_loop tr data (length data) i ecc st =
       ft5x06_fw_upgrade_loop tr data (length data) (i + 128)
         (fold (\<lambda>b e. e XOR b) (take 128 (drop i data)) ecc)
         (emit (I2C_Write (packet_at data i) # poll_events n) st)"
proof -
  let ?len = "if length data - i < FT_FW_PKT_LEN then length data - i else FT_FW_PKT_LEN"
  have len: "?len = min 128 (length data - i)"
    by (simp add: FT_FW_PKT_LEN_def min_def)
  have "i + ?len \<le> length data"
    using assms(1) by (auto simp: FT_FW_PKT_LEN_def)
  then have "map (\<lambda>j. data ! (i + j)) [0..<?len] = take 128 (drop i data)"
    unfolding len by (simp only: payload_slice take_min_drop)
  with send_packet_trace [of tr "0xbf" i ?len data ecc st]
  obtain n where n: "1 \<le> n" "n \<le> 5"
    "ft5x06_fw_send_packet tr 0xbf i ?len data ecc st =
       (fold (\<lambda>b e. e XOR b) (take 128 (drop i data)) ecc,
        emit (I2C_Write (packet_at data i) # poll_events n) st)"
    unfolding len packet_at_def take_min_drop by auto
  have "\<not> i + FT_FW_PKT_LEN > INT_MAX"
    using assms by (simp add: FT_FW_PKT_LEN_def INT_MAX_def)
  then have "ft5x06_fw_upgrade_loop tr data (length data) i ecc st =
       ft5x06_fw_upgrade_loop tr data (length data) (i + 128)
         (fold (\<lambda>b e. e XOR b) (take 128 (drop i data)) ecc)
         (emit (I2C_Write (packet_at data i) # poll_events n) st)"
    using assms(1) n(3)
    by (subst ft5x06_fw_upgrade_loop.simps) (simp add: FT_FW_PKT_LEN_def)
  with n(1,2) show ?thesis by blast
qed

lemma upgrade_loop_trace:
  assumes "length data \<le> 2 ^ 31 - 128"
  shows "k \<le> (length data + 127) div 128 \<Longrightarrow>
    \<exists>evs. ft5x06_fw_upgrade_loop tr data (length data) (128 * k) ecc st
            = Some (fold (\<lambda>b e. e XOR b) (drop (128 * k) data) ecc, emit evs st)
        \<and> prog_packets evs
            = map (\<lambda>j. packet_at data (128 * j)) [k..<(length data + 127) div 128]
        \<and> (length data + 127) div 128 - k \<le> count_list evs (I2C_Read [0x6a] 2)"
proof (induction "(length data + 127) div 128 - k" arbitrary: k ecc st)
  case 0
  then have "length data \<le> 128 * k" by simp
  then have "ft5x06_fw_upgrade_loop tr data (length data) (128 * k) ecc st
               = Some (fold (\<lambda>b e. e XOR b) (drop (128 * k) data) ecc, emit [] st)"
    by (subst ft5x06_fw_upgrade_loop.simps) simp
  moreover have "prog_packets [] = map (\<lambda>j. packet_at data (128 * j)) [k..<(length data + 127) div 128]"
    using 0 by simp
  moreover have "(length data + 127) div 128 - k \<le> count_list [] (I2C_Read [0x6a] 2)"
    using 0 by simp
  ultimately show ?case by blast
next
  case (Suc m)
  then have lt: "128 * k < length data" and k: "k < (length data + 127) div 128"
    and m: "m = (length data + 127) div 128 - Suc k"
    and le: "Suc k \<le> (length data + 127) div 128"
    by linarith+
  have eq: "128 * Suc k = 128 * k + 128" by simp
  from upgrade_loop_unfold_lt [OF lt assms, of tr ecc st]
  obtain n where n: "1 \<le> n" and step:
    "ft5x06_fw_upgrade_loop tr data (length data) (128 * k) ecc st =
       ft5x06_fw_upgrade_loop tr data (length data) (128 * k + 128)
         (fold (\<lambda>b e. e XOR b) (take 128 (drop (128 * k) data)) ecc)
         (emit (I2C_Write (packet_at data (128 * k)) # poll_events n) st)"
    by blast
  from Suc.hyps(1) [OF m le, unfolded eq]
  obtain evs where IH:
    "ft5x06_fw_upgrade_loop tr data (length data) (128 * k + 128)
         (fold (\<lambda>b e. e XOR b) (take 128 (drop (128 * k) data)) ecc)
         (emit (I2C_Write (packet_at data (128 * k)) # poll_events n) st)
      = Some (fold (\<lambda>b e. e XOR b) (drop (128 * k + 128) data)
                (fold (\<lambda>b e. e XOR b) (take 128 (drop (128 * k) data)) ecc),
              emit evs (emit (I2C_Write (packet_at data (128 * k)) # poll_events n) st))"
    "prog_packets evs = map (\<lambda>j. packet_at data (128 * j)) [Suc k..<(length data + 127) div 128]"
    "(length data + 127) div 128 - Suc k \<le> count_list evs (I2C_Read [0x6a] 2)"
    by blast
  have "drop (128 * k + 128) data = drop 128 (drop (128 * k) data)"
    by (simp add: add.commute)
  then have "drop (128 * k) data = take 128 (drop (128 * k) data) @ drop (128 * k + 128) data"
    by (simp only: append_take_drop_id)
  then have "fold (\<lambda>b e. e XOR b) (drop (128 * k) data) ecc
      = fold (\<lambda>b e. e XOR b) (drop (128 * k + 128) data)
          (fold (\<lambda>b e. e XOR b) (take 128 (drop (128 * k) data)) ecc)"
    by (metis fold_append comp_apply)
  with step IH(1)
  have run: "ft5x06_fw_upgrade_loop tr data (length data) (128 * k) ecc st
      = Some (fold (\<lambda>b e. e XOR b) (drop (128 * k) data) ecc,
              emit ((I2C_Write (packet_at data (128 * k)) # poll_events n) @ evs) st)"
    by simp
  have "prog_packets ((I2C_Write (packet_at data (128 * k)) # poll_events n) @ evs)
      = packet_at data (128 * k) # prog_packets evs"
    by simp
  also have "\<dots> = map (\<lambda>j. packet_at data (128 * j)) [k..<(length data + 127) div 128]"
    using k IH(2) by (simp add: upt_conv_Cons)
  finally have pk: "prog_packets ((I2C_Write (packet_at data (128 * k)) # poll_events n) @ evs)
      = map (\<lambda>j. packet_at data (128 * j)) [k..<(length data + 127) div 128]" .
  have "(length data + 127) div 128 - k
      \<le> count_list ((I2C_Write (packet_at data (128 * k)) # poll_events n) @ evs)
          (I2C_Read [0x6a] 2)"
    using IH(3) n by (simp add: count_list_poll)
  with run pk show ?case by blast
qed

lemma prog_packets_erase [simp]: "prog_packets (erase_events cid info data_len) = []"
  by (simp add: erase_events_def)

lemma prog_packets_none:
  "\<forall>e \<in> set evs. \<forall>b bs. e \<noteq> I2C_Write (0xbf # bs) \<Longrightarrow> prog_packets evs = []"
proof (induction evs)
  case Nil
  then show ?case by simp
next
  case (Cons e evs)
  then show ?case
  proof (cases e)
    case (I2C_Write buf)
    with Cons show ?thesis by (cases buf) auto
  qed simp_all
qed

lemma prog_packets_init:
  "set evs \<subseteq> set (enter_events cid info @ id_events info) \<Longrightarrow> prog_packets evs = []"
  by (rule prog_packets_none)
     (auto simp: enter_events_def pre_enter_events_def reset_events_def id_events_def
       split: if_splits)

lemma fw_upgrade_unfold:
  assumes "ft5x06_get_info cid = Some info" "ft5x06_init_upgrade tr cid st = Some (0, st1)"
  shows "ft5x06_fw_upgrade tr cid data data_len st =
     (case ft5x06_fw_upgrade_loop tr data data_len 0 0 (emit (erase_events cid info data_len) st1) of
        None \<Rightarrow> None
      | Some (ecc, st6) \<Rightarrow>
          if snd (tr (bus_log st6 @ [Msleep 50]) (I2C_Read [0xcc] 1)) 0 \<noteq> ecc
          then Some (- EIO, emit [Msleep 50, I2C_Read [0xcc] 1] st6)
          else Some (0, emit [Msleep 50, I2C_Read [0xcc] 1, I2C_Write [0x07], Msleep 100] st6))"
  by (simp add: ft5x06_fw_upgrade_def assms i2c_write_emit i2c_read_emit msleep_emit
      ft5x06_reset_fw_def erase_events_def Let_def upt_rec [of 0] split: option.splits)

lemma fw_upgrade_entry_failed:
  assumes "ft5x06_get_info cid = Some info" "ft5x06_init_upgrade tr cid st = Some (r, st1)" "r < 0"
  shows "ft5x06_fw_upgrade tr cid data data_len st = Some (r, st1)"
  by (simp add: ft5x06_fw_upgrade_def assms)

lemma fold_xor_sum: "fold (\<lambda>b e. e XOR b) bs a = a XOR xor_sum bs"
  by (induction bs arbitrary: a) (simp_all add: xor_sum_def ac_simps)

lemma fw_upgrade_trace:
  assumes info: "ft5x06_get_info cid = Some info"
    and init: "ft5x06_init_upgrade tr cid st = Some (0, st1)"
    and len: "length data \<le> 2 ^ 31 - 128"
  shows "\<exists>evs. prog_packets evs = map (\<lambda>k. packet_at data (128 * k)) [0..<(length data + 127) div 128]
     \<and> (length data + 127) div 128 \<le> count_list evs (I2C_Read [0x6a] 2)
     \<and> ft5x06_fw_upgrade tr cid data (length data) st =
       (if snd (tr (bus_log st1 @ erase_events cid info (length data) @ evs @ [Msleep 50])
                  (I2C_Read [0xcc] 1)) 0 \<noteq> xor_sum data
        then Some (- EIO, emit (erase_events cid info (length data) @ evs
                                 @ [Msleep 50, I2C_Read [0xcc] 1]) st1)
        else Some (0, emit (erase_events cid info (length data) @ evs
                             @ [Msleep 50, I2C_Read [0xcc] 1, I2C_Write [0x07], Msleep 100]) st1))"
proof -
  from upgrade_loop_trace [OF len, of 0 tr 0 "emit (erase_events cid info (length data)) st1"]
  obtain evs where
    "ft5x06_fw_upgrade_loop tr data (length data) 0 0 (emit (erase_events cid info (length data)) st1)
       = Some (xor_sum data, emit evs (emit (erase_events cid info (length data)) st1))"
    "prog_packets evs = map (\<lambda>k. packet_at data (128 * k)) [0..<(length data + 127) div 128]"
    "(length data + 127) div 128 \<le> count_list evs (I2C_Read [0x6a] 2)"
    by (auto simp: fold_xor_sum)
  then show ?thesis
    by (intro exI [of _ evs]) (simp add: fw_upgrade_unfold [OF info init])
qed

section \<open>The ECC check: results\<close>

lemma init_upgrade_fake_chip:
  "\<exists>st1. ft5x06_init_upgrade (fake_chip 0x79 0x03 e) 0x55 st = Some (0, st1)"
  unfolding ft5x06_init_upgrade_def
  by (subst init_loop_unfold [OF get_info_ft5x06])
     (simp add: fake_chip_def id_ok_def mk_info_def FT_UPGRADE_LOOP_def)


text \<open>
  C3.  After the bootloader has been entered, for an image of at most \<open>2^31 - 128\<close>
  bytes (the range in which the \<^verbatim>\<open>int\<close> counter of the loop does not overflow): the ECC
  byte accumulated by the programming loop is the XOR of all bytes of the image, whatever
  the chip answers; and \<^verbatim>\<open>ft5x06_fw_upgrade\<close> reads one byte of register \<open>0xCC\<close> after the
  log \<open>h\<close>, returns \<open>-EIO\<close> when that byte differs from the XOR of the image and 0 when
  it does not.  After a mismatch nothing more is sent; after a match the firmware is reset.
\<close>

theorem ecc_verification:
  assumes "ft5x06_get_info cid = Some info"
    and "ft5x06_init_upgrade tr cid st = Some (0, st1)"
    and "length data \<le> 2 ^ 31 - 128"
  shows "(\<forall>s. \<exists>s'. ft5x06_fw_upgrade_loop tr data (length data) 0 0 s = Some (xor_sum data, s'))
    \<and> (\<exists>h st'.
          ft5x06_fw_upgrade tr cid data (length data) st
            = Some (if snd (tr h (I2C_Read [0xcc] 1)) 0 \<noteq> xor_sum data then - EIO else 0, st')
          \<and> bus_log st' = h @ I2C_Read [0xcc] 1
               # (if snd (tr h (I2C_Read [0xcc] 1)) 0 \<noteq> xor_sum data then []
                  else [I2C_Write [0x07], Msleep 100]))"
proof
  show "\<forall>s. \<exists>s'. ft5x06_fw_upgrade_loop tr data (length data) 0 0 s = Some (xor_sum data, s')"
  proof
    fix s
    from upgrade_loop_trace [OF assms(3), of 0 tr 0 s]
    show "\<exists>s'. ft5x06_fw_upgrade_loop tr data (length data) 0 0 s = Some (xor_sum data, s')"
      by (auto simp: fold_xor_sum)
  qed
next
  from fw_upgrade_trace [OF assms]
  obtain evs where run: "ft5x06_fw_upgrade tr cid data (length data) st =
       (if snd (tr (bus_log st1 @ erase_events cid info (length data) @ evs @ [Msleep 50])
                  (I2C_Read [0xcc] 1)) 0 \<noteq> xor_sum data
        then Some (- EIO, emit (erase_events cid info (length data) @ evs
                                 @ [Msleep 50, I2C_Read [0xcc] 1]) st1)
        else Some (0, emit (erase_events cid info (length data) @ evs
                             @ [Msleep 50, I2C_Read [0xcc] 1, I2C_Write [0x07], Msleep 100]) st1))"
    by blast
  let ?h = "bus_log st1 @ erase_events cid info (length data) @ evs @ [Msleep 50]"
  show "\<exists>h st'.
          ft5x06_fw_upgrade tr cid data (length data) st
            = Some (if snd (tr h (I2C_Read [0xcc] 1)) 0 \<noteq> xor_sum data then - EIO else 0, st')
          \<and> bus_log st' = h @ I2C_Read [0xcc] 1
               # (if snd (tr h (I2C_Read [0xcc] 1)) 0 \<noteq> xor_sum data then []
                  else [I2C_Write [0x07], Msleep 100])"
    by (rule exI [of _ ?h]) (simp add: run)
qed

theorem ecc_verification_witness:
  "fst (the (ft5x06_fw_upgrade (fake_chip 0x79 0x03 0xAB) 0x55
               [0x01, 0x02, 0x04, 0x08, 0x10, 0x20, 0x40, 0x80] 8 s0)) = - EIO
   \<and> fst (the (ft5x06_fw_upgrade (fake_chip 0x79 0x03 0xFF) 0x55
               [0x01, 0x02, 0x04, 0x08, 0x10, 0x20, 0x40, 0x80] 8 s0)) = 0"
proof -
  let ?img = "[0x01, 0x02, 0x04, 0x08, 0x10, 0x20, 0x40, 0x80] :: byte list"
  have len: "length ?img \<le> 2 ^ 31 - 128" by simp
  have x: "xor_sum ?img = 0xFF" by (simp add: xor_sum_def)
  obtain a where a: "ft5x06_init_upgrade (fake_chip 0x79 0x03 0xAB) 0x55 s0 = Some (0, a)"
    using init_upgrade_fake_chip by blast
  obtain b where b: "ft5x06_init_upgrade (fake_chip 0x79 0x03 0xFF) 0x55 s0 = Some (0, b)"
    using init_upgrade_fake_chip by blast
  have l8: "length ?img = 8" by simp
  from ecc_verification [OF get_info_ft5x06 a len, unfolded l8]
    ecc_verification [OF get_info_ft5x06 b len, unfolded l8]
  show ?thesis
    by (auto simp: x fake_chip_def simp del: length_Cons)
qed

section \<open>The write engine: results\<close>

lemma chunks_concat:
  "concat (map (\<lambda>k. take n (drop (n * k) xs)) [0..<m]) = take (n * m) xs"
proof (induction m)
  case 0
  then show ?case by simp
next
  case (Suc m)
  have "take (n * Suc m) xs = take (n * m + n) xs"
    by (simp add: add.commute)
  also have "\<dots> = take (n * m) xs @ take n (drop (n * m) xs)"
    by (rule take_add)
  finally show ?case
    using Suc by simp
qed

lemma packet_at_payload: "drop 6 (packet_at data offset) = take 128 (drop offset data)"
  by (simp add: packet_at_def take_min_drop)

lemma payloads_concat:
  "concat (map (drop 6) (map (\<lambda>k. packet_at data (128 * k)) [0..<(length data + 127) div 128]))
     = data"
proof -
  have "length data \<le> 128 * ((length data + 127) div 128)"
    by linarith
  then show ?thesis
    by (simp add: o_def packet_at_payload chunks_concat)
qed

text \<open>
  C4.  After the bootloader has been entered, for an image \<open>data\<close> of length
  \<open>L \<le> 65536\<close>: the writes that start with \<open>0xBF\<close> among the events of
  \<^verbatim>\<open>ft5x06_fw_upgrade\<close> are, in order, the packets \<open>packet_at data (128 * k)\<close> for
  \<open>k = 0, ..., \<lceil>L / 128\<rceil> - 1\<close>: offset \<open>128 * k\<close>, header
  \<open>0xBF, 0x00, high(offset), low(offset), high(n), low(n)\<close> with \<open>n = min 128 (L - offset)\<close>,
  then \<open>n\<close> bytes of the image from \<open>offset\<close> on.  The payloads, one after the other, are
  the image.
\<close>

theorem programming_packets:
  assumes "ft5x06_get_info cid = Some info"
    and "ft5x06_init_upgrade tr cid st = Some (0, st1)"
    and "length data \<le> 65536"
  shows "\<exists>r st'. ft5x06_fw_upgrade tr cid data (length data) st = Some (r, st')
    \<and> prog_packets (drop (length (bus_log st)) (bus_log st'))
        = map (\<lambda>k. packet_at data (128 * k)) [0..<(length data + 127) div 128]
    \<and> (\<forall>k < (length data + 127) div 128.
          length (packet_at data (128 * k)) = 6 + min 128 (length data - 128 * k))
    \<and> concat (map (drop 6) (prog_packets (drop (length (bus_log st)) (bus_log st')))) = data"
proof -
  from init_upgrade_trace [OF assms(1), of tr st] assms(2)
  obtain evs0 where st1: "st1 = emit evs0 st"
    and evs0: "set evs0 \<subseteq> set (enter_events cid info @ id_events info)"
    by auto
  have len: "length data \<le> 2 ^ 31 - 128"
    using assms(3) by simp
  from fw_upgrade_trace [OF assms(1,2) len]
  obtain evs where pk: "prog_packets evs
        = map (\<lambda>k. packet_at data (128 * k)) [0..<(length data + 127) div 128]"
    and run: "ft5x06_fw_upgrade tr cid data (length data) st =
       (if snd (tr (bus_log st1 @ erase_events cid info (length data) @ evs @ [Msleep 50])
                  (I2C_Read [0xcc] 1)) 0 \<noteq> xor_sum data
        then Some (- EIO, emit (erase_events cid info (length data) @ evs
                                 @ [Msleep 50, I2C_Read [0xcc] 1]) st1)
        else Some (0, emit (erase_events cid info (length data) @ evs
                             @ [Msleep 50, I2C_Read [0xcc] 1, I2C_Write [0x07], Msleep 100]) st1))"
    by blast
  obtain r tl where res: "ft5x06_fw_upgrade tr cid data (length data) st
        = Some (r, emit (evs0 @ erase_events cid info (length data) @ evs @ tl) st)"
    and tl: "prog_packets tl = []"
    using run unfolding st1 by (cases "snd (tr (bus_log (emit evs0 st) @ erase_events cid info (length data) @ evs @ [Msleep 50])
                  (I2C_Read [0xcc] 1)) 0 \<noteq> xor_sum data") auto
  have pk': "prog_packets (drop (length (bus_log st))
                (bus_log (emit (evs0 @ erase_events cid info (length data) @ evs @ tl) st)))
        = map (\<lambda>k. packet_at data (128 * k)) [0..<(length data + 127) div 128]"
    using pk tl prog_packets_init [OF evs0] by simp
  have lens: "\<forall>k < (length data + 127) div 128.
          length (packet_at data (128 * k)) = 6 + min 128 (length data - 128 * k)"
    by (simp add: packet_at_def)
  show ?thesis
    using res pk' lens payloads_concat [of data] by (simp del: prog_packets_simps)
qed

theorem programming_packets_witness:
  "prog_packets (bus_log (snd (the (ft5x06_fw_upgrade (fake_chip 0x79 0x03 0xFF) 0x55
               [0x01, 0x02, 0x04, 0x08, 0x10, 0x20, 0x40, 0x80] 8 s0))))
     = [[0xBF, 0x00, 0x00, 0x00, 0x00, 0x08, 0x01, 0x02, 0x04, 0x08, 0x10, 0x20, 0x40, 0x80]]"
proof -
  let ?img = "[0x01, 0x02, 0x04, 0x08, 0x10, 0x20, 0x40, 0x80] :: byte list"
  have len: "length ?img \<le> 65536" by simp
  have l8: "length ?img = 8" by simp
  obtain a where a: "ft5x06_init_upgrade (fake_chip 0x79 0x03 0xFF) 0x55 s0 = Some (0, a)"
    using init_upgrade_fake_chip by blast
  have pk: "map (\<lambda>k. packet_at ?img (128 * k)) [0..<(8 + 127) div 128]
     = [[0xBF, 0x00, 0x00, 0x00, 0x00, 0x08, 0x01, 0x02, 0x04, 0x08, 0x10, 0x20, 0x40, 0x80]]"
    by (simp add: packet_at_def)
  from programming_packets [OF get_info_ft5x06 a len, unfolded l8 pk]
  show ?thesis
    by (auto simp: s0_def simp del: length_Cons)
qed

lemma init_upgrade_fake_chip_log:
  "ft5x06_init_upgrade (fake_chip 0x79 0x03 e) 0x55 st
     = Some (0, emit [I2C_Write [0xfc, 0xAA], Msleep 50, I2C_Write [0xfc, 0x55], Msleep 30,
                      I2C_Write [0x55, 0xAA], Msleep 10, I2C_Read [0x90, 0x00, 0x00, 0x00] 2] st)"
  unfolding ft5x06_init_upgrade_def
  by (subst init_loop_unfold [OF get_info_ft5x06])
     (simp add: fake_chip_def id_ok_def mk_info_def FT_UPGRADE_LOOP_def enter_events_def
       pre_enter_events_def reset_events_def id_events_def FT5x26_ID_def)

text \<open>
  C6.  The status loop of \<^verbatim>\<open>ft5x06_fw_send_packet\<close> is compiled for every chip (the delay
  of the \<^verbatim>\<open>#if 0\<close> branch is not), and the function does not get the chip id.  Flashing
  an FT5x06 (chip id \<open>0x55\<close>) reads the status register \<open>0x6A\<close>.
\<close>

theorem polling_on_ft5x06_counterexample:
  "I2C_Read [0x6a] 2 \<in> set (bus_log (snd (the (ft5x06_fw_upgrade (fake_chip 0x79 0x03 0xFF) 0x55
               [0x01, 0x02, 0x04, 0x08, 0x10, 0x20, 0x40, 0x80] 8 s0))))"
proof -
  let ?img = "[0x01, 0x02, 0x04, 0x08, 0x10, 0x20, 0x40, 0x80] :: byte list"
  have len: "length ?img \<le> 2 ^ 31 - 128" by simp
  have l8: "length ?img = 8" by simp
  obtain a where a: "ft5x06_init_upgrade (fake_chip 0x79 0x03 0xFF) 0x55 s0 = Some (0, a)"
    using init_upgrade_fake_chip by blast
  from fw_upgrade_trace [OF get_info_ft5x06 a len, unfolded l8]
  obtain evs where "(8 + 127) div 128 \<le> count_list evs (I2C_Read [0x6a] 2)"
    and "I2C_Read [0x6a] 2 \<in> set evs \<longrightarrow>
         I2C_Read [0x6a] 2 \<in> set (bus_log (snd (the (ft5x06_fw_upgrade (fake_chip 0x79 0x03 0xFF)
               0x55 ?img 8 s0))))"
    by (auto split: if_splits)
  moreover have "count_list evs (I2C_Read [0x6a] 2) = 0" if "I2C_Read [0x6a] 2 \<notin> set evs"
    using that by (simp add: count_list_0_iff)
  ultimately show ?thesis
    by fastforce
qed

text \<open>
  C6, as amended.  Whatever the chip, after the write of a packet \<open>pkt\<close> the events of
  \<^verbatim>\<open>ft5x06_fw_send_packet\<close> are \<open>n\<close> polls, \<open>1 \<le> n \<le> 5\<close>, each a sleep of 5 ms and a read
  of two bytes from register \<open>0x6A\<close>.  No poll before the last one was answered with
  \<open>0x1000 + offset / 128\<close>, and when there are fewer than five polls the last one was.
\<close>

theorem flash_status_polling:
  "\<exists>n pkt. 1 \<le> n \<and> n \<le> 5
     \<and> bus_log (snd (ft5x06_fw_send_packet tr cmd offset len data ecc st))
         = bus_log st @ I2C_Write pkt # poll_events n
     \<and> (\<forall>k. Suc k < n \<longrightarrow>
           \<not> status_ok tr offset (bus_log st @ I2C_Write pkt # poll_events k @ [Msleep 5]))
     \<and> (n < 5 \<longrightarrow>
           status_ok tr offset (bus_log st @ I2C_Write pkt # poll_events (n - 1) @ [Msleep 5]))"
proof -
  from send_packet_trace [of tr cmd offset len data ecc st]
  obtain n pkt where "ft5x06_fw_send_packet tr cmd offset len data ecc st
        = (fold (\<lambda>b e. e XOR b) (map (\<lambda>i. data ! (offset + i)) [0..<len]) ecc,
           emit (I2C_Write pkt # poll_events n) st)"
    "1 \<le> n" "n \<le> 5"
    "\<forall>k. Suc k < n \<longrightarrow>
           \<not> status_ok tr offset (bus_log st @ I2C_Write pkt # poll_events k @ [Msleep 5])"
    "n < 5 \<longrightarrow>
           status_ok tr offset (bus_log st @ I2C_Write pkt # poll_events (n - 1) @ [Msleep 5])"
    by blast
  then show ?thesis
    by (intro exI [of _ n] exI [of _ pkt]) simp
qed

theorem flash_status_polling_witness:
  "\<exists>pkt. bus_log (snd (ft5x06_fw_send_packet (fake_chip 0x79 0x03 0) 0xbf 0 8
                          [0x01, 0x02, 0x04, 0x08, 0x10, 0x20, 0x40, 0x80] 0 s0))
           = I2C_Write pkt # poll_events 5"
proof -
  from flash_status_polling [of "fake_chip 0x79 0x03 0" "0xbf" 0 8
      "[0x01, 0x02, 0x04, 0x08, 0x10, 0x20, 0x40, 0x80]" 0 s0]
  obtain n pkt where n: "n \<le> 5"
    "bus_log (snd (ft5x06_fw_send_packet (fake_chip 0x79 0x03 0) 0xbf 0 8
                          [0x01, 0x02, 0x04, 0x08, 0x10, 0x20, 0x40, 0x80] 0 s0))
       = bus_log s0 @ I2C_Write pkt # poll_events n"
    "n < 5 \<longrightarrow> status_ok (fake_chip 0x79 0x03 0) 0
                   (bus_log s0 @ I2C_Write pkt # poll_events (n - 1) @ [Msleep 5])"
    by blast
  have "\<not> status_ok (fake_chip 0x79 0x03 0) 0 h" for h
    by (simp add: status_ok_def fake_chip_def)
  with n have "n = 5" by force
  with n(2) show ?thesis by (simp add: s0_def)
qed








text \<open>
  C2.  The macro \<^verbatim>\<open>FT_FW_MIN_SIZE\<close> is never used and \<^verbatim>\<open>FT_FW_MAX_SIZE\<close> only as the size
  of a dump: an image of one byte is flashed.  The bootloader is entered, the erase command
  is the eighth event, one packet with the byte is programmed, and the result is 0.
\<close>

theorem short_image_is_flashed_counterexample:
  "fst (the (ft5x06_fw_upgrade (fake_chip 0x79 0x03 0x07) 0x55 [0x07] 1 s0)) = 0
   \<and> bus_log (snd (the (ft5x06_fw_upgrade (fake_chip 0x79 0x03 0x07) 0x55 [0x07] 1 s0))) ! 7
       = I2C_Write [0x61]
   \<and> prog_packets (bus_log (snd (the (ft5x06_fw_upgrade (fake_chip 0x79 0x03 0x07) 0x55
                                         [0x07] 1 s0))))
       = [[0xBF, 0x00, 0x00, 0x00, 0x00, 0x01, 0x07]]"
proof -
  let ?img = "[0x07] :: byte list"
  have len: "length ?img \<le> 2 ^ 31 - 128" by simp
  have l1: "length ?img = 1" by simp
  have x: "xor_sum ?img = 0x07" by (simp add: xor_sum_def)
  have pk: "map (\<lambda>k. packet_at ?img (128 * k)) [0..<(1 + 127) div 128]
     = [[0xBF, 0x00, 0x00, 0x00, 0x00, 0x01, 0x07]]"
    by (simp add: packet_at_def)
  note a = init_upgrade_fake_chip_log [of "0x07" s0]
  from fw_upgrade_trace [OF get_info_ft5x06 a len, unfolded l1 pk]
  obtain evs where "prog_packets evs = [[0xBF, 0x00, 0x00, 0x00, 0x00, 0x01, 0x07]]"
    "ft5x06_fw_upgrade (fake_chip 0x79 0x03 0x07) 0x55 ?img 1 s0
      = Some (0, emit (erase_events 0x55 (mk_info 0x55 ''ft5x06'' 5 1 50 30 0x79 0x03 10 2000 0x0000) 1
                        @ evs @ [Msleep 50, I2C_Read [0xcc] 1, I2C_Write [0x07], Msleep 100])
                   (emit [I2C_Write [0xfc, 0xAA], Msleep 50, I2C_Write [0xfc, 0x55], Msleep 30,
                      I2C_Write [0x55, 0xAA], Msleep 10, I2C_Read [0x90, 0x00, 0x00, 0x00] 2] s0))"
    by (auto simp: x fake_chip_def)
  then show ?thesis
    by (simp add: s0_def erase_events_def)
qed

text \<open>
  C2, as amended.  For a chip of the table and an image of any length up to
  \<open>2^31 - 128\<close>, \<^verbatim>\<open>ft5x06_fw_upgrade\<close> returns 0 or \<open>-EIO\<close> and its first event is the reset
  of the CTPM; when the bootloader is entered, it erases and programs
  \<open>\<lceil>L / 128\<rceil>\<close> packets.
\<close>

theorem upgrade_has_no_size_check:
  assumes "ft5x06_get_info cid = Some info"
    and "length data \<le> 2 ^ 31 - 128"
  shows "\<exists>r evs. ft5x06_fw_upgrade tr cid data (length data) st
                    = Some (r, st\<lparr>bus_log := bus_log st @ evs\<rparr>)
      \<and> (r = 0 \<or> r = - EIO)
      \<and> take 1 evs = [I2C_Write [0xfc, 0xAA]]
      \<and> (\<forall>st1. ft5x06_init_upgrade tr cid st = Some (0, st1) \<longrightarrow>
            I2C_Write [0x61] \<in> set evs
            \<and> length (prog_packets evs) = (length data + 127) div 128)"
proof -
  from init_upgrade_trace [OF assms(1), of tr st]
  obtain r0 evs0 where init: "ft5x06_init_upgrade tr cid st = Some (r0, emit evs0 st)"
    and r0: "r0 = 0 \<or> r0 = - EIO"
    and sub: "set evs0 \<subseteq> set (enter_events cid info @ id_events info)"
    and first: "take 1 evs0 = [I2C_Write [0xfc, 0xAA]]"
    by blast
  from first have first': "take 1 (evs0 @ evs) = [I2C_Write [0xfc, 0xAA]]" for evs
    by (cases evs0) simp_all
  show ?thesis
  proof (cases "r0 = 0")
    case False
    with r0 have neg: "r0 < 0" and eio: "r0 = - EIO" by (simp_all add: EIO_def)
    from fw_upgrade_entry_failed [OF assms(1) init neg]
    have "ft5x06_fw_upgrade tr cid data (length data) st
            = Some (r0, st\<lparr>bus_log := bus_log st @ evs0\<rparr>)"
      by (simp add: emit_def)
    with eio first init False show ?thesis
      by (intro exI [of _ r0] exI [of _ evs0]) simp
  next
    case True
    with init have init0: "ft5x06_init_upgrade tr cid st = Some (0, emit evs0 st)" by simp
    from fw_upgrade_trace [OF assms(1) init0 assms(2)]
    obtain evs r tl where
      pk: "prog_packets evs = map (\<lambda>k. packet_at data (128 * k)) [0..<(length data + 127) div 128]"
      and res: "ft5x06_fw_upgrade tr cid data (length data) st
           = Some (r, emit (erase_events cid info (length data) @ evs @ tl) (emit evs0 st))"
      and r: "r = 0 \<or> r = - EIO" and tl: "prog_packets tl = []"
      by (auto split: if_splits)
    let ?all = "evs0 @ erase_events cid info (length data) @ evs @ tl"
    have "ft5x06_fw_upgrade tr cid data (length data) st
            = Some (r, st\<lparr>bus_log := bus_log st @ ?all\<rparr>)"
      using res by (simp add: emit_def)
    moreover have "I2C_Write [0x61] \<in> set ?all"
      by (simp add: erase_events_def)
    moreover have "length (prog_packets ?all) = (length data + 127) div 128"
      using pk tl prog_packets_init [OF sub] by simp
    moreover have "take 1 ?all = [I2C_Write [0xfc, 0xAA]]"
      by (rule first')
    ultimately show ?thesis
      using r by (intro exI [of _ r] exI [of _ ?all]) simp
  qed
qed

theorem upgrade_has_no_size_check_witness:
  "\<exists>r evs. ft5x06_fw_upgrade (fake_chip 0x79 0x03 0x07) 0x55 [0x07] 1 s0
              = Some (r, s0\<lparr>bus_log := bus_log s0 @ evs\<rparr>)
         \<and> I2C_Write [0x61] \<in> set evs \<and> length (prog_packets evs) = 1"
proof -
  have len: "length [0x07 :: byte] \<le> 2 ^ 31 - 128" by simp
  have l1: "length [0x07 :: byte] = 1" by simp
  from upgrade_has_no_size_check [OF get_info_ft5x06 len, unfolded l1,
      of "fake_chip 0x79 0x03 0x07" s0]
  show ?thesis
    by (auto simp: init_upgrade_fake_chip_log)
qed

section \<open>The read engine and the order of dump and flash: results\<close>

lemma put_simps [simp]:
  "bus_log (put bs st) = bus_log st"
  "outfile (put bs st) = outfile st @ bs"
  "put bs (put bs' st) = put (bs' @ bs) st"
  "emit evs (put bs st) = put bs (emit evs st)"
  "put [] st = st"
  by (simp_all add: put_def emit_def)

lemma read_events_Nil [simp]: "read_events a a = []"
  by (simp add: read_events_def)

lemma read_events_snoc:
  "a \<le> b \<Longrightarrow> read_events a (Suc b) = read_events a b @ [Msleep 10, read_packet_at (256 * b)]"
  by (simp add: read_events_def)

lemma read_events_Cons:
  "a < b \<Longrightarrow> read_events a b = Msleep 10 # read_packet_at (256 * a) # read_events (Suc a) b"
  by (simp add: read_events_def upt_conv_Cons)

lemma of_nat_256_times: "(of_nat (256 * k) :: byte) = 0"
  by (metis of_nat_mod_256 mod_mult_self1_is_0 of_nat_0)

lemma fw_read_loop_unfold:
  assumes "k < 256"
  shows "ft5x06_fw_read_loop tr (256 * k) data st =
     (if fst (tr (bus_log st @ [Msleep 10]) (read_packet_at (256 * k))) < 0
      then (Some (fst (tr (bus_log st @ [Msleep 10]) (read_packet_at (256 * k)))),
            emit [Msleep 10, read_packet_at (256 * k)] st)
      else ft5x06_fw_read_loop tr (256 * k + 256)
             (map (snd (tr (bus_log st @ [Msleep 10]) (read_packet_at (256 * k)))) [0..<256]
              @ drop 256 data)
             (put (map (snd (tr (bus_log st @ [Msleep 10]) (read_packet_at (256 * k)))) [0..<256])
                (emit [Msleep 10, read_packet_at (256 * k)] st)))"
proof -
  from assms have lt: "256 * k < FT_FW_MAX_SIZE"
    by (simp add: FT_FW_MAX_SIZE_def)
  from assms have len: "(if FT_FW_MAX_SIZE - 256 * k < FT_FW_PKT_READ_LEN
                         then FT_FW_MAX_SIZE - 256 * k else FT_FW_PKT_READ_LEN) = 256"
    by (simp add: FT_FW_MAX_SIZE_def FT_FW_PKT_READ_LEN_def)
  have ev: "ft5x06_fw_receive_packet tr 0x03 (256 * k) 256 (msleep 10 st)
      = (fst (tr (bus_log st @ [Msleep 10]) (read_packet_at (256 * k))),
         map (snd (tr (bus_log st @ [Msleep 10]) (read_packet_at (256 * k)))) [0..<256],
         emit [Msleep 10, read_packet_at (256 * k)] st)"
    by (simp add: ft5x06_fw_receive_packet_def i2c_read_emit msleep_emit read_packet_at_def
        drop_bit_eq_div of_nat_256_times del: of_nat_mult)
  show ?thesis
    by (subst ft5x06_fw_read_loop.simps, simp only: lt len if_True,
        simp add: ev put_def emit_def FT_FW_PKT_READ_LEN_def)
qed

lemma fw_read_loop_done: "ft5x06_fw_read_loop tr 65536 data st = (None, st)"
  by (subst ft5x06_fw_read_loop.simps) (simp add: FT_FW_MAX_SIZE_def)

lemma fw_read_loop_trace:
  "k \<le> 256 \<Longrightarrow> bus_log st = h0 @ read_events 0 k \<Longrightarrow>
   (fst (ft5x06_fw_read_loop tr (256 * k) data st) = None \<longrightarrow>
      snd (ft5x06_fw_read_loop tr (256 * k) data st)
        = put (concat (map (chunk tr h0) [k..<256])) (emit (read_events k 256) st))
   \<and> (\<forall>r. fst (ft5x06_fw_read_loop tr (256 * k) data st) = Some r \<longrightarrow> r < 0)
   \<and> ((\<forall>h j. j < 256 \<longrightarrow> 0 \<le> fst (tr h (read_packet_at (256 * j)))) \<longrightarrow>
        fst (ft5x06_fw_read_loop tr (256 * k) data st) = None)"
proof (induction "256 - k" arbitrary: k data st)
  case 0
  then have "k = 256" by simp
  then show ?case by (simp add: fw_read_loop_done)
next
  case (Suc m)
  then have k: "k < 256" and m: "m = 256 - Suc k" and le: "Suc k \<le> 256"
    by simp_all
  let ?rep = "tr (bus_log st @ [Msleep 10]) (read_packet_at (256 * k))"
  let ?rd = "map (snd ?rep) [0..<256]"
  let ?st = "put ?rd (emit [Msleep 10, read_packet_at (256 * k)] st)"
  let ?data = "?rd @ drop 256 data"
  have rd: "?rd = chunk tr h0 k"
    by (simp add: chunk_def Suc.prems(2))
  show ?case
  proof (cases "fst ?rep < 0")
    case True
    with k have "\<not> (\<forall>h j. j < 256 \<longrightarrow> 0 \<le> fst (tr h (read_packet_at (256 * j))))"
      by (metis not_le)
    with True show ?thesis
      by (simp add: fw_read_loop_unfold [OF k])
  next
    case False
    have log: "bus_log ?st = h0 @ read_events 0 (Suc k)"
      using Suc.prems(2) by (simp add: read_events_snoc)
    have eq: "256 * Suc k = 256 * k + 256" by simp
    note IH = Suc.hyps(1) [OF m le log, of ?data, unfolded eq]
    have unf: "ft5x06_fw_read_loop tr (256 * k) data st
                 = ft5x06_fw_read_loop tr (256 * k + 256) ?data ?st"
      using False by (subst fw_read_loop_unfold [OF k]) simp
    have "put (concat (map (chunk tr h0) [Suc k..<256])) (emit (read_events (Suc k) 256) ?st)
        = put (concat (map (chunk tr h0) [k..<256])) (emit (read_events k 256) st)"
      using k by (simp add: upt_conv_Cons [of k 256] rd read_events_Cons [of k 256])
    with IH show ?thesis
      unfolding unf by simp
  qed
qed

lemma length_chunk [simp]: "length (chunk tr h j) = 256"
  by (simp add: chunk_def)

lemma length_chunks: "length (concat (map (chunk tr h) [a..<b])) = (b - a) * 256"
  by (simp add: length_concat o_def sum_list_triv)

lemma fw_read_unfold:
  assumes "ft5x06_init_upgrade tr cid st = Some (0, st1)"
  shows "ft5x06_fw_read tr cid st =
     (case ft5x06_fw_read_loop tr 0 (replicate 256 0) st1 of
        (Some r, st2) \<Rightarrow> Some (r, st2)
      | (None, st2) \<Rightarrow> Some (0, emit [I2C_Write [0x07], Msleep 100] st2))"
  by (simp add: ft5x06_fw_read_def assms i2c_write_emit msleep_emit FT_FW_PKT_READ_LEN_def
      split: prod.splits option.splits)

lemma fw_read_entry_failed:
  assumes "ft5x06_init_upgrade tr cid st = Some (r, st1)" "r < 0"
  shows "ft5x06_fw_read tr cid st = Some (r, st1)"
  by (simp add: ft5x06_fw_read_def assms)

lemma fw_read_trace:
  assumes "ft5x06_init_upgrade tr cid st = Some (0, st1)"
  shows "\<exists>r st2. ft5x06_fw_read tr cid st = Some (r, st2) \<and> r \<le> 0
    \<and> (r = 0 \<longrightarrow>
         st2 = put (concat (map (chunk tr (bus_log st1)) [0..<256]))
                 (emit (read_events 0 256 @ [I2C_Write [0x07], Msleep 100]) st1))
    \<and> ((\<forall>h j. j < 256 \<longrightarrow> 0 \<le> fst (tr h (read_packet_at (256 * j)))) \<longrightarrow> r = 0)"
proof -
  let ?L = "ft5x06_fw_read_loop tr 0 (replicate 256 0) st1"
  from fw_read_loop_trace [of 0 st1 "bus_log st1" tr "replicate 256 0"]
  have a: "fst ?L = None \<longrightarrow>
             snd ?L = put (concat (map (chunk tr (bus_log st1)) [0..<256]))
                        (emit (read_events 0 256) st1)"
    and b: "\<forall>r. fst ?L = Some r \<longrightarrow> r < 0"
    and c: "(\<forall>h j. j < 256 \<longrightarrow> 0 \<le> fst (tr h (read_packet_at (256 * j)))) \<longrightarrow> fst ?L = None"
    by simp_all
  show ?thesis
  proof (cases "fst ?L")
    case None
    with a have "?L = (None, put (concat (map (chunk tr (bus_log st1)) [0..<256]))
                        (emit (read_events 0 256) st1))"
      by (metis prod.collapse)
    then show ?thesis
      by (simp add: fw_read_unfold [OF assms])
  next
    case (Some r)
    with b have neg: "r < 0" by simp
    from Some obtain st2 where L: "?L = (Some r, st2)"
      by (cases ?L) auto
    from c L have "\<not> (\<forall>h j. j < 256 \<longrightarrow> 0 \<le> fst (tr h (read_packet_at (256 * j))))"
      by auto
    with neg show ?thesis
      by (simp add: fw_read_unfold [OF assms] L)
  qed
qed

text \<open>
  C8.  When the bootloader has been entered and no read packet fails,
  \<^verbatim>\<open>ft5x06_fw_read\<close> returns 0.  Its events are, for \<open>j = 0, ..., 255\<close>, a sleep of 10 ms and
  the read packet at offset \<open>256 * j\<close> (a write of \<open>0x03, 0x00, high(offset), low(offset)\<close>
  with a read of 256 bytes), and then the write of the single byte \<open>0x07\<close> and a sleep of
  100 ms.  The output file grows by the 256 chunks that the chip delivered, each of 256
  bytes: 65536 bytes.
\<close>

theorem read_engine:
  assumes "ft5x06_init_upgrade tr cid st = Some (0, st1)"
    and "\<forall>h j. j < 256 \<longrightarrow> 0 \<le> fst (tr h (read_packet_at (256 * j)))"
  shows "ft5x06_fw_read tr cid st =
      Some (0, st1\<lparr>bus_log := bus_log st1
                       @ concat (map (\<lambda>j. [Msleep 10, read_packet_at (256 * j)]) [0..<256])
                       @ [I2C_Write [0x07], Msleep 100],
                    outfile := outfile st1
                       @ concat (map (chunk tr (bus_log st1)) [0..<256])\<rparr>)
    \<and> (\<forall>j < 256. length (chunk tr (bus_log st1) j) = 256)
    \<and> length (concat (map (chunk tr (bus_log st1)) [0..<256])) = 65536"
proof -
  from fw_read_trace [OF assms(1)] assms(2)
  have "ft5x06_fw_read tr cid st =
      Some (0, put (concat (map (chunk tr (bus_log st1)) [0..<256]))
                 (emit (read_events 0 256 @ [I2C_Write [0x07], Msleep 100]) st1))"
    by auto
  then show ?thesis
    by (simp add: put_def emit_def read_events_def length_chunks)
qed

lemma concat_replicate_const:
  "concat (map (\<lambda>j. replicate m x) xs) = replicate (length xs * m) x"
  by (induction xs) (simp_all add: replicate_add)

theorem read_engine_witness:
  "fst (the (ft5x06_fw_read (fake_chip 0x79 0x03 0) 0x55 s0)) = 0
   \<and> outfile (snd (the (ft5x06_fw_read (fake_chip 0x79 0x03 0) 0x55 s0))) = replicate 65536 0
   \<and> last (bus_log (snd (the (ft5x06_fw_read (fake_chip 0x79 0x03 0) 0x55 s0)))) = Msleep 100
   \<and> last (butlast (bus_log (snd (the (ft5x06_fw_read (fake_chip 0x79 0x03 0) 0x55 s0)))))
       = I2C_Write [0x07]"
proof -
  obtain a where a: "ft5x06_init_upgrade (fake_chip 0x79 0x03 0) 0x55 s0 = Some (0, a)"
    using init_upgrade_fake_chip by blast
  have ok: "\<forall>h j. j < 256 \<longrightarrow> 0 \<le> fst (fake_chip 0x79 0x03 0 h (read_packet_at (256 * j)))"
    by (simp add: fake_chip_def read_packet_at_def)
  have ch: "chunk (fake_chip 0x79 0x03 0) h = (\<lambda>j. replicate 256 0)" for h
    by (rule ext) (simp add: chunk_def fake_chip_def read_packet_at_def map_replicate_const)
  have out0: "outfile a = []"
    using a by (auto simp: init_upgrade_fake_chip_log s0_def)
  from read_engine [OF a ok] show ?thesis
    by (simp add: ch concat_replicate_const out0 butlast_append)
qed

lemma upgrade_loop_emit:
  "ft5x06_fw_upgrade_loop tr data data_len i ecc st = Some (e, st') \<Longrightarrow>
   \<exists>evs. st' = emit evs st"
proof (induction "data_len - i" arbitrary: i ecc st rule: less_induct)
  case less
  show ?case
  proof (cases "i < data_len")
    case False
    with less.prems have "st' = emit [] st"
      by (subst (asm) ft5x06_fw_upgrade_loop.simps) simp
    then show ?thesis by blast
  next
    case True
    let ?len = "if data_len - i < FT_FW_PKT_LEN then data_len - i else FT_FW_PKT_LEN"
    from send_packet_trace [of tr "0xbf" i ?len data ecc st]
    obtain e1 evs1 where sp: "ft5x06_fw_send_packet tr 0xbf i ?len data ecc st = (e1, emit evs1 st)"
      by blast
    from True have dec: "data_len - (i + FT_FW_PKT_LEN) < data_len - i"
      by (simp add: FT_FW_PKT_LEN_def)
    from less.prems True sp
    have "ft5x06_fw_upgrade_loop tr data data_len (i + FT_FW_PKT_LEN) e1 (emit evs1 st)
            = Some (e, st')"
      by (subst (asm) ft5x06_fw_upgrade_loop.simps) (simp split: if_splits)
    from less.hyps [OF dec this] obtain evs where "st' = emit evs (emit evs1 st)"
      by blast
    then have "st' = emit (evs1 @ evs) st" by simp
    then show ?thesis by blast
  qed
qed

lemma fw_upgrade_emit:
  assumes "ft5x06_fw_upgrade tr cid data data_len st = Some (r, st')"
  shows "\<exists>evs. st' = emit evs st"
proof (cases "ft5x06_get_info cid")
  case None
  with assms have "st' = emit [] st"
    by (simp add: ft5x06_fw_upgrade_def)
  then show ?thesis by blast
next
  case (Some info)
  from init_upgrade_trace [OF Some, of tr st]
  obtain r0 evs0 where init: "ft5x06_init_upgrade tr cid st = Some (r0, emit evs0 st)"
    and r0: "r0 = 0 \<or> r0 = - EIO"
    by blast
  show ?thesis
  proof (cases "r0 = 0")
    case False
    with r0 have "r0 < 0" by (simp add: EIO_def)
    from fw_upgrade_entry_failed [OF Some init this] assms
    show ?thesis by auto
  next
    case True
    with init have init0: "ft5x06_init_upgrade tr cid st = Some (0, emit evs0 st)" by simp
    from assms obtain e st6 where
      loop: "ft5x06_fw_upgrade_loop tr data data_len 0 0
               (emit (erase_events cid info data_len) (emit evs0 st)) = Some (e, st6)"
      and fin: "st' = emit [Msleep 50, I2C_Read [0xcc] 1] st6
                \<or> st' = emit [Msleep 50, I2C_Read [0xcc] 1, I2C_Write [0x07], Msleep 100] st6"
      by (auto simp: fw_upgrade_unfold [OF Some init0] split: option.splits if_splits)
    from upgrade_loop_emit [OF loop] obtain evs where
      "st6 = emit evs (emit (erase_events cid info data_len) (emit evs0 st))"
      by blast
    with fin show ?thesis
      by (metis emit_simps(3))
  qed
qed

lemma init_upgrade_no_dump_chip:
  "ft5x06_init_upgrade (no_dump_chip 0x79 0x03 e) 0x55 st
     = Some (0, emit [I2C_Write [0xfc, 0xAA], Msleep 50, I2C_Write [0xfc, 0x55], Msleep 30,
                      I2C_Write [0x55, 0xAA], Msleep 10, I2C_Read [0x90, 0x00, 0x00, 0x00] 2] st)"
  unfolding ft5x06_init_upgrade_def
  by (subst init_loop_unfold [OF get_info_ft5x06])
     (simp add: no_dump_chip_def fake_chip_def id_ok_def mk_info_def FT_UPGRADE_LOOP_def
       enter_events_def pre_enter_events_def reset_events_def id_events_def FT5x26_ID_def)

lemma fw_read_no_dump_chip:
  "ft5x06_fw_read (no_dump_chip 0x79 0x03 e) 0x55 st
     = Some (- 1, emit [I2C_Write [0xfc, 0xAA], Msleep 50, I2C_Write [0xfc, 0x55], Msleep 30,
                        I2C_Write [0x55, 0xAA], Msleep 10, I2C_Read [0x90, 0x00, 0x00, 0x00] 2,
                        Msleep 10, I2C_Read [0x03, 0x00, 0x00, 0x00] 256] st)"
proof -
  have f: "fst (no_dump_chip 0x79 0x03 e h (read_packet_at 0)) = - 1" for h
    by (simp add: no_dump_chip_def read_packet_at_def)
  have "ft5x06_fw_read_loop (no_dump_chip 0x79 0x03 e) (256 * 0) data s
          = (Some (- 1), emit [Msleep 10, read_packet_at 0] s)" for data s
    by (subst fw_read_loop_unfold) (simp_all add: f)
  then show ?thesis
    by (simp add: fw_read_unfold [OF init_upgrade_no_dump_chip] read_packet_at_def emit_def)
qed

text \<open>
  C10.  A chip whose flash cannot be read, with the arguments
  \<^verbatim>\<open>-c 55 -o dump.bin -i fw.bin\<close>: the first read packet of the dump fails, so
  \<^verbatim>\<open>ft5x06_fw_read\<close> returns \<open>-1\<close> with no byte written to the output file and without the
  reset of the firmware (no write of \<open>0x07\<close>).  \<^verbatim>\<open>main\<close> only reports this and goes on:
  the bootloader is entered again, the chip is erased (events 17 and 18), the length is
  announced and the image is programmed in one packet; the exit status is 0.
\<close>

theorem failed_dump_is_followed_by_flash_counterexample:
  "exit_status (main (fake_host (no_dump_chip 0x79 0x03 0xFF)
                        [0x01, 0x02, 0x04, 0x08, 0x10, 0x20, 0x40, 0x80])
          [''ft5x06-tool'', ''-c'', ''55'', ''-o'', ''dump.bin'', ''-i'', ''fw.bin'']) = Some 0
   \<and> outfile (the (outcome_state (main (fake_host (no_dump_chip 0x79 0x03 0xFF)
                        [0x01, 0x02, 0x04, 0x08, 0x10, 0x20, 0x40, 0x80])
          [''ft5x06-tool'', ''-c'', ''55'', ''-o'', ''dump.bin'', ''-i'', ''fw.bin'']))) = []
   \<and> take 21 (bus_log (the (outcome_state (main (fake_host (no_dump_chip 0x79 0x03 0xFF)
                        [0x01, 0x02, 0x04, 0x08, 0x10, 0x20, 0x40, 0x80])
          [''ft5x06-tool'', ''-c'', ''55'', ''-o'', ''dump.bin'', ''-i'', ''fw.bin'']))))
       = [I2C_Read [0xa6] 1,
          I2C_Write [0xfc, 0xAA], Msleep 50, I2C_Write [0xfc, 0x55], Msleep 30,
          I2C_Write [0x55, 0xAA], Msleep 10, I2C_Read [0x90, 0x00, 0x00, 0x00] 2,
          Msleep 10, I2C_Read [0x03, 0x00, 0x00, 0x00] 256,
          I2C_Write [0xfc, 0xAA], Msleep 50, I2C_Write [0xfc, 0x55], Msleep 30,
          I2C_Write [0x55, 0xAA], Msleep 10, I2C_Read [0x90, 0x00, 0x00, 0x00] 2,
          I2C_Write [0x61], I2C_Write [0x63], Msleep 2000, I2C_Write [0xB0, 0x00, 0x00, 0x08]]
   \<and> prog_packets (bus_log (the (outcome_state (main (fake_host (no_dump_chip 0x79 0x03 0xFF)
                        [0x01, 0x02, 0x04, 0x08, 0x10, 0x20, 0x40, 0x80])
          [''ft5x06-tool'', ''-c'', ''55'', ''-o'', ''dump.bin'', ''-i'', ''fw.bin'']))))
       = [[0xBF, 0x00, 0x00, 0x00, 0x00, 0x08, 0x01, 0x02, 0x04, 0x08, 0x10, 0x20, 0x40, 0x80]]"
proof -
  let ?img = "[0x01, 0x02, 0x04, 0x08, 0x10, 0x20, 0x40, 0x80] :: byte list"
  let ?tr = "no_dump_chip 0x79 0x03 0xFF"
  let ?h = "fake_host ?tr ?img"
  let ?argv = "[''ft5x06-tool'', ''-c'', ''55'', ''-o'', ''dump.bin'', ''-i'', ''fw.bin'']"
  let ?opt = "init_opts\<lparr>opt_chip_id := 0x55, opt_output := Some ''dump.bin'',
                        opt_input := Some ''fw.bin''\<rparr>"
  let ?st = "\<lparr>bus_log = [I2C_Read [0xa6] 1], outfile = []\<rparr>"
  let ?E = "[I2C_Write [0xfc, 0xAA], Msleep 50, I2C_Write [0xfc, 0x55], Msleep 30,
             I2C_Write [0x55, 0xAA], Msleep 10, I2C_Read [0x90, 0x00, 0x00, 0x00] 2]"
  let ?st1 = "emit (?E @ [Msleep 10, I2C_Read [0x03, 0x00, 0x00, 0x00] 256]) ?st"
  let ?info = "mk_info 0x55 ''ft5x06'' 5 1 50 30 0x79 0x03 10 2000 0x0000"
  have m: "main ?h ?argv = main_dump ?h ?opt 0x55 ?st"
    by (simp add: main_def init_opts_def fake_host_def to_int_def main_identify_def
        main_version_def ft5x06_get_name_def get_info_ft5x06 i2c_read_emit emit_def
        no_dump_chip_def fake_chip_def)
  have d: "main_dump ?h ?opt 0x55 ?st
      = (case ft5x06_fw_upgrade ?tr 0x55 ?img 8 ?st1 of
           None \<Rightarrow> Undefined
         | Some (r2, st2) \<Rightarrow> Return 0 st2)"
    by (simp add: main_dump_def main_flash_def fake_host_def fw_read_no_dump_chip)
  have len: "length ?img \<le> 2 ^ 31 - 128" by simp
  have l8: "length ?img = 8" by simp
  have x: "xor_sum ?img = 0xFF" by (simp add: xor_sum_def)
  have pk: "map (\<lambda>k. packet_at ?img (128 * k)) [0..<(8 + 127) div 128]
     = [[0xBF, 0x00, 0x00, 0x00, 0x00, 0x08, 0x01, 0x02, 0x04, 0x08, 0x10, 0x20, 0x40, 0x80]]"
    by (simp add: packet_at_def)
  note a = init_upgrade_no_dump_chip [of "0xFF" ?st1]
  from fw_upgrade_trace [OF get_info_ft5x06 a len, unfolded l8 pk]
  obtain evs where pp: "prog_packets evs
      = [[0xBF, 0x00, 0x00, 0x00, 0x00, 0x08, 0x01, 0x02, 0x04, 0x08, 0x10, 0x20, 0x40, 0x80]]"
    and up: "ft5x06_fw_upgrade ?tr 0x55 ?img 8 ?st1
      = Some (0, emit (erase_events 0x55 ?info 8
                        @ evs @ [Msleep 50, I2C_Read [0xcc] 1, I2C_Write [0x07], Msleep 100])
                   (emit ?E ?st1))"
    by (auto simp: x no_dump_chip_def fake_chip_def)
  have fin: "main ?h ?argv
      = Return 0 (emit (erase_events 0x55 ?info 8
                        @ evs @ [Msleep 50, I2C_Read [0xcc] 1, I2C_Write [0x07], Msleep 100])
                   (emit ?E ?st1))"
    by (simp only: m d up option.case prod.case)
  show ?thesis
    unfolding fin
    by (simp add: exit_status_def outcome_state_def erase_events_def mk_info_def FT5x26_ID_def pp)
qed

text \<open>
  C10, as amended.  With an output and an input file that both open, and a chip of the
  table, the part of \<^verbatim>\<open>main\<close> after the identification (\<open>main_dump\<close>) first runs
  \<^verbatim>\<open>ft5x06_fw_read\<close> to its return, with a result \<open>r1 \<le> 0\<close>, and then, whatever \<open>r1\<close> is,
  \<^verbatim>\<open>ft5x06_fw_upgrade\<close> from the state \<open>st1\<close> that the dump has left.  The flash only adds
  events to the log of \<open>st1\<close> and leaves the output file as it is.  When the dump has
  succeeded (\<open>r1 = 0\<close>), \<open>st1\<close> holds the 256 read packets, the reset of the firmware and
  the 65536 bytes of the dump.
\<close>

theorem dump_precedes_flash:
  assumes "opt_output opt = Some out" and "opt_input opt = Some inp"
    and "0 \<le> open_output h out" and "0 \<le> open_input h inp" and "\<not> mmap_fails h inp"
    and "ft5x06_get_info cid = Some info"
  shows "\<exists>r1 st1. ft5x06_fw_read (chip h) cid st = Some (r1, st1)
    \<and> r1 \<le> 0
    \<and> main_dump h opt cid st =
        (case ft5x06_fw_upgrade (chip h) cid (input_file h inp)
                (length (input_file h inp) mod 2 ^ 32) st1 of
           None \<Rightarrow> Undefined
         | Some (r2, st2) \<Rightarrow> Return 0 st2)
    \<and> (\<forall>r2 st2. ft5x06_fw_upgrade (chip h) cid (input_file h inp)
                    (length (input_file h inp) mod 2 ^ 32) st1 = Some (r2, st2) \<longrightarrow>
          (\<exists>evs. bus_log st2 = bus_log st1 @ evs) \<and> outfile st2 = outfile st1)
    \<and> (r1 = 0 \<longrightarrow>
          (\<exists>evs. bus_log st1 = bus_log st @ evs
                    @ concat (map (\<lambda>j. [Msleep 10, read_packet_at (256 * j)]) [0..<256])
                    @ [I2C_Write [0x07], Msleep 100])
          \<and> length (outfile st1) = length (outfile st) + 65536)"
proof -
  from init_upgrade_trace [OF assms(6), of "chip h" st]
  obtain r0 evs0 where init: "ft5x06_init_upgrade (chip h) cid st = Some (r0, emit evs0 st)"
    and r0: "r0 = 0 \<or> r0 = - EIO"
    by blast
  have "\<exists>r1 st1. ft5x06_fw_read (chip h) cid st = Some (r1, st1)
    \<and> r1 \<le> 0
    \<and> (r1 = 0 \<longrightarrow>
          (\<exists>evs. bus_log st1 = bus_log st @ evs @ read_events 0 256
                    @ [I2C_Write [0x07], Msleep 100])
          \<and> length (outfile st1) = length (outfile st) + 65536)"
  proof (cases "r0 = 0")
    case False
    with r0 have "r0 < 0" by (simp add: EIO_def)
    from fw_read_entry_failed [OF init this] False \<open>r0 < 0\<close> show ?thesis by simp
  next
    case True
    with init have "ft5x06_init_upgrade (chip h) cid st = Some (0, emit evs0 st)" by simp
    from fw_read_trace [OF this]
    obtain r st2 where rd: "ft5x06_fw_read (chip h) cid st = Some (r, st2)"
      and neg: "r \<le> 0"
      and compl: "r = 0 \<longrightarrow>
         st2 = put (concat (map (chunk (chip h) (bus_log (emit evs0 st))) [0..<256]))
                 (emit (read_events 0 256 @ [I2C_Write [0x07], Msleep 100]) (emit evs0 st))"
      by blast
    have "bus_log st2 = bus_log st @ evs0 @ read_events 0 256 @ [I2C_Write [0x07], Msleep 100]
          \<and> length (outfile st2) = length (outfile st) + 65536" if "r = 0"
      using compl that by (simp add: length_chunks)
    with rd neg show ?thesis by blast
  qed
  then obtain r1 st1 where rd: "ft5x06_fw_read (chip h) cid st = Some (r1, st1)"
    and neg: "r1 \<le> 0"
    and compl: "r1 = 0 \<longrightarrow>
          (\<exists>evs. bus_log st1 = bus_log st @ evs @ read_events 0 256
                    @ [I2C_Write [0x07], Msleep 100])
          \<and> length (outfile st1) = length (outfile st) + 65536"
    by blast
  have main: "main_dump h opt cid st =
        (case ft5x06_fw_upgrade (chip h) cid (input_file h inp)
                (length (input_file h inp) mod 2 ^ 32) st1 of
           None \<Rightarrow> Undefined
         | Some (r2, st2) \<Rightarrow> Return 0 st2)"
    using assms(1-5) rd by (simp add: main_dump_def main_flash_def)
  have after: "(\<exists>evs. bus_log st2 = bus_log st1 @ evs) \<and> outfile st2 = outfile st1"
    if "ft5x06_fw_upgrade (chip h) cid (input_file h inp)
                    (length (input_file h inp) mod 2 ^ 32) st1 = Some (r2, st2)" for r2 st2
    using fw_upgrade_emit [OF that] by auto
  from rd neg main after compl show ?thesis
    unfolding read_events_def by blast
qed

theorem dump_precedes_flash_witness:
  "\<exists>st1.
     ft5x06_fw_read (fake_chip 0x79 0x03 0xFF) 0x55 \<lparr>bus_log = [I2C_Read [0xa6] 1], outfile = []\<rparr>
       = Some (0, st1)
     \<and> length (outfile st1) = 65536
     \<and> main (fake_host (fake_chip 0x79 0x03 0xFF) [0x01, 0x02, 0x04, 0x08, 0x10, 0x20, 0x40, 0x80])
           [''ft5x06-tool'', ''-c'', ''55'', ''-o'', ''dump.bin'', ''-i'', ''fw.bin'']
         = (case ft5x06_fw_upgrade (fake_chip 0x79 0x03 0xFF) 0x55
                   [0x01, 0x02, 0x04, 0x08, 0x10, 0x20, 0x40, 0x80] 8 st1 of
              None \<Rightarrow> Undefined
            | Some (r2, st2) \<Rightarrow> Return 0 st2)"
proof -
  let ?img = "[0x01, 0x02, 0x04, 0x08, 0x10, 0x20, 0x40, 0x80] :: byte list"
  let ?tr = "fake_chip 0x79 0x03 0xFF"
  let ?h = "fake_host ?tr ?img"
  let ?opt = "init_opts\<lparr>opt_chip_id := 0x55, opt_output := Some ''dump.bin'',
                        opt_input := Some ''fw.bin''\<rparr>"
  let ?st = "\<lparr>bus_log = [I2C_Read [0xa6] 1], outfile = []\<rparr>"
  have m: "main ?h [''ft5x06-tool'', ''-c'', ''55'', ''-o'', ''dump.bin'', ''-i'', ''fw.bin'']
             = main_dump ?h ?opt 0x55 ?st"
    by (simp add: main_def init_opts_def fake_host_def to_int_def main_identify_def
        main_version_def ft5x06_get_name_def get_info_ft5x06 i2c_read_emit emit_def fake_chip_def)
  have h: "opt_output ?opt = Some ''dump.bin''" "opt_input ?opt = Some ''fw.bin''"
    "0 \<le> open_output ?h ''dump.bin''" "0 \<le> open_input ?h ''fw.bin''"
    "\<not> mmap_fails ?h ''fw.bin''"
    by (simp_all add: fake_host_def)
  have c: "chip ?h = ?tr" "input_file ?h ''fw.bin'' = ?img" "length ?img mod 2 ^ 32 = 8"
    by (simp_all add: fake_host_def)
  obtain a where a: "ft5x06_init_upgrade ?tr 0x55 ?st = Some (0, a)"
    using init_upgrade_fake_chip by blast
  have "\<forall>h j. j < 256 \<longrightarrow> 0 \<le> fst (?tr h (read_packet_at (256 * j)))"
    by (simp add: fake_chip_def read_packet_at_def)
  with fw_read_trace [OF a] obtain st2 where ok: "ft5x06_fw_read ?tr 0x55 ?st = Some (0, st2)"
    by auto
  from dump_precedes_flash [OF h get_info_ft5x06, of ?st] ok show ?thesis
    unfolding m c by auto
qed

section \<open>The command line: results\<close>

text \<open>
  C9.  The usage text of \<^verbatim>\<open>show_help\<close> announces \<^verbatim>\<open>-o, --output\<close>, but the parser compares
  with the string \<^verbatim>\<open>--ouput\<close>: on any host, the arguments \<^verbatim>\<open>--output fw.bin\<close> end in the
  usage text and \<^verbatim>\<open>exit(1)\<close>, and no dump is made.
\<close>

theorem main_long_output_is_rejected:
  "main h [''ft5x06-tool'', ''--output'', ''fw.bin''] = Usage_Exit
   \<and> exit_status (main h [''ft5x06-tool'', ''--output'', ''fw.bin'']) = Some 1"
  by (simp add: main_def exit_status_def)

lemma main_flash_status:
  "exit_status (main_flash h opt cid st) = Some 0 \<or> exit_status (main_flash h opt cid st) = None"
  by (simp add: main_flash_def exit_status_def split: option.splits prod.splits)

lemma main_dump_status:
  "exit_status (main_dump h opt cid st) = Some 0 \<or> exit_status (main_dump h opt cid st) = None"
  using main_flash_status
  by (simp add: main_dump_def exit_status_def split: option.splits prod.splits)

lemma main_identify_status:
  "exit_status (main_identify h opt st) = Some 0 \<or> exit_status (main_identify h opt st) = None"
  using main_dump_status
  by (simp add: main_identify_def main_version_def exit_status_def split: option.splits prod.splits)

text \<open>
  C1.  A run with the forced chip id \<open>0x99\<close>, which is not in the table, reports the
  unsupported chip and leaves through the label \<^verbatim>\<open>end\<close>, where \<^verbatim>\<open>main\<close> returns 0: the
  exit status of this fatal error is 0.  So it is for every run that has opened the bus
  and set the address: whatever the chip, the options and the files, it ends with status
  0 (or in undefined behaviour), also after a transport error, a failed entry of the
  bootloader or an ECC mismatch.
\<close>

theorem main_unsupported_chip_exits_zero:
  "main (fake_host (fake_chip 0x79 0x03 0) []) [''ft5x06-tool'', ''-c'', ''99''] = Return 0 s0
   \<and> exit_status (main (fake_host (fake_chip 0x79 0x03 0) []) [''ft5x06-tool'', ''-c'', ''99''])
       = Some 0
   \<and> (\<forall>h opt st. exit_status (main_identify h opt st) = Some 0
                   \<or> exit_status (main_identify h opt st) = None)"
proof (intro conjI allI)
  show "main (fake_host (fake_chip 0x79 0x03 0) []) [''ft5x06-tool'', ''-c'', ''99''] = Return 0 s0"
    by (simp add: main_def init_opts_def fake_host_def to_int_def main_identify_def
        main_version_def ft5x06_get_name_def ft5x06_get_info_def ft5x06_fwu_info_def
        mk_info_def to_unsigned_def s0_def)
  then show "exit_status (main (fake_host (fake_chip 0x79 0x03 0) [])
                            [''ft5x06-tool'', ''-c'', ''99'']) = Some 0"
    by (simp add: exit_status_def)
next
  fix h opt st
  show "exit_status (main_identify h opt st) = Some 0
        \<or> exit_status (main_identify h opt st) = None"
    by (rule main_identify_status)
qed

end
